theory Spec2Isabelle
  imports Main
begin

section \<open>Data model\<close>

text \<open>
  Model names are the keys of every dictionary of the program. Costs, penalties and
  log-likelihoods are Python floats: the embedding leaves their type \<open>'v\<close> open and uses
  only the operations the source applies to them (\<open>0\<close>, \<open>+\<close>, unary \<open>-\<close>, \<open><\<close>), so no
  law of exact arithmetic is assumed unless a theorem asks for it in its sort.
  Fitted model objects have the opaque type \<open>'m\<close>, perfect parameters the opaque type \<open>'p\<close>.
\<close>

type_synonym name = string

datatype error =
    KeyError name
  | IndexError
  | AttributeError string
  | ValueError
  | Exception string

text \<open>
  A method either raises, leaving the object in the state reached so far, or returns a
  value together with the state of the object.
\<close>

datatype ('r, 's) outcome = Raised error 's | Returned 'r 's

text \<open>
  The body of a \<open>for\<close> loop either raises, executes \<open>return\<close>, or falls through to the
  next iteration.
\<close>

datatype 's flow = Raise error 's | Return 's | Continue 's

text \<open>
  The attributes that \<open>generalSetup\<close> copies from the first single-condition problem are
  attributes of both classes, as are the cost, penalty and parameter-count dictionaries.
  An absent attribute \<open>stopFittingN\<close> (the source tests it with \<open>hasattr\<close>) is \<open>None\<close>.
\<close>

record ('v, 'm, 'p) problem_attributes =
  costDict :: "name \<rightharpoonup> 'v"
  penaltyDict :: "name \<rightharpoonup> 'v"
  numParametersDict :: "name \<rightharpoonup> nat"
  fittingModelNames :: "name list"
  indepParamNames :: "string list"
  cutoff :: 'v
  verbose :: bool
  perfectModel :: "'m option"
  perfectParams :: "'p option"
  stopFittingN :: "int option"

text \<open>
  The single-condition problem, class \<open>FittingProblem\<close>, of which this module reads the
  attributes above and the dictionary of fitted models.
\<close>

record ('v, 'm, 'p) FittingProblem = "('v, 'm, 'p) problem_attributes" +
  fittingModelDict :: "name \<rightharpoonup> 'm"

text \<open>The aggregator, class \<open>FittingProblemMultipleCondition\<close>.\<close>

record ('v, 'm, 'p) FittingProblemMultipleCondition = "('v, 'm, 'p) problem_attributes" +
  logLikelihoodDict :: "name \<rightharpoonup> 'v"
  fitAllDone :: bool
  saveFilename :: "string option"
  saveKey :: int
  pid :: nat
  fittingProblemList :: "('v, 'm, 'p) FittingProblem list"

section \<open>Construction\<close>

text \<open>
  A list comprehension whose element expression may raise: the elements are built from
  left to right and the first exception ends the comprehension.
\<close>

fun comprehension :: "('a \<Rightarrow> error + 'b) \<Rightarrow> 'a list \<Rightarrow> error + 'b list" where
  "comprehension f [] = Inr []"
| "comprehension f (x # xs) =
     (case f x of
        Inl e \<Rightarrow> Inl e
      | Inr y \<Rightarrow> (case comprehension f xs of Inl e \<Rightarrow> Inl e | Inr ys \<Rightarrow> Inr (y # ys)))"

text \<open>
  \<open>generalSetup\<close>: the dictionaries start empty and the flag false; the shared attributes
  are read from \<open>fittingProblemList[0]\<close>, which raises on an empty list, and reading
  \<open>f.stopFittingN\<close> raises when the first problem has no such attribute (the other
  attributes are fields of every single-condition problem of the model). The process
  identifier returned by \<open>os.getpid()\<close> is the argument \<open>p\<close>.
\<close>

definition generalSetup ::
  "nat \<Rightarrow> ('v, 'm, 'p) FittingProblem list \<Rightarrow> string option \<Rightarrow> int \<Rightarrow>
   error + ('v, 'm, 'p) FittingProblemMultipleCondition" where
  "generalSetup p fps saveFilename' saveKey' =
     (case fps of
        [] \<Rightarrow> Inl IndexError
      | f # _ \<Rightarrow>
          (case stopFittingN f of
             None \<Rightarrow> Inl (AttributeError ''stopFittingN'')
           | Some w \<Rightarrow>
               Inr \<lparr> costDict = Map.empty,
                     penaltyDict = Map.empty,
                     numParametersDict = Map.empty,
                     fittingModelNames = fittingModelNames f,
                     indepParamNames = indepParamNames f,
                     cutoff = cutoff f,
                     verbose = verbose f,
                     perfectModel = perfectModel f,
                     perfectParams = perfectParams f,
                     stopFittingN = Some w,
                     logLikelihoodDict = Map.empty,
                     fitAllDone = False,
                     saveFilename = saveFilename',
                     saveKey = saveKey',
                     pid = p,
                     fittingProblemList = fps \<rparr>))"

text \<open>
  The pairing of datasets with independent-parameter lists: \<open>zip\<close> stops at the shorter
  list; an omitted \<open>indepParamsListMultiple\<close> is one \<open>[[]]\<close> per dataset.
\<close>

definition pairConditions :: "'d list \<Rightarrow> 'x list list list option \<Rightarrow> ('d \<times> 'x list list) list" where
  "pairConditions fittingDataMultiple indepParamsListMultiple =
     zip fittingDataMultiple
       (case indepParamsListMultiple of
          None \<Rightarrow> map (\<lambda>fd. [[]]) fittingDataMultiple
        | Some ips \<Rightarrow> ips)"

text \<open>
  \<open>FittingProblemMultipleCondition.__init__\<close>. The constructor of the single-condition
  problem is the argument \<open>mk\<close>; it receives the dataset, the model list, the
  independent-parameter list and the keyword arguments, and may raise.
\<close>

definition init ::
  "('d \<Rightarrow> 'l \<Rightarrow> 'x list list \<Rightarrow> 'k \<Rightarrow> error + ('v, 'm, 'p) FittingProblem) \<Rightarrow> nat \<Rightarrow>
   'd list \<Rightarrow> 'l \<Rightarrow> 'x list list list option \<Rightarrow> string option \<Rightarrow> int \<Rightarrow> 'k \<Rightarrow>
   error + ('v, 'm, 'p) FittingProblemMultipleCondition" where
  "init mk p fittingDataMultiple fittingModelList indepParamsListMultiple saveFilename' saveKey' kwargs =
     (case comprehension (\<lambda>(fittingData, indepParamsList).
               mk fittingData fittingModelList indepParamsList kwargs)
             (pairConditions fittingDataMultiple indepParamsListMultiple) of
        Inl e \<Rightarrow> Inl e
      | Inr fps \<Rightarrow> generalSetup p fps saveFilename' saveKey')"

text \<open>
  \<open>PowerLawFittingProblemMultipleCondition.__init__\<close> and
  \<open>CTSNFittingProblemMultipleCondition.__init__\<close> differ from it in the constructor they
  call, which takes a complexity list in place of the model list.
\<close>

definition PowerLaw_init ::
  "('c \<Rightarrow> 'd \<Rightarrow> 'x list list \<Rightarrow> 'k \<Rightarrow> error + ('v, 'm, 'p) FittingProblem) \<Rightarrow> nat \<Rightarrow>
   'c \<Rightarrow> 'd list \<Rightarrow> 'x list list list option \<Rightarrow> string option \<Rightarrow> int \<Rightarrow> 'k \<Rightarrow>
   error + ('v, 'm, 'p) FittingProblemMultipleCondition" where
  "PowerLaw_init mkPowerLaw p complexityList fittingDataMultiple indepParamsListMultiple saveFilename' saveKey' kwargs =
     (case comprehension (\<lambda>(fittingData, indepParamsList).
               mkPowerLaw complexityList fittingData indepParamsList kwargs)
             (pairConditions fittingDataMultiple indepParamsListMultiple) of
        Inl e \<Rightarrow> Inl e
      | Inr fps \<Rightarrow> generalSetup p fps saveFilename' saveKey')"

definition CTSN_init ::
  "('c \<Rightarrow> 'd \<Rightarrow> 'x list list \<Rightarrow> 'k \<Rightarrow> error + ('v, 'm, 'p) FittingProblem) \<Rightarrow> nat \<Rightarrow>
   'c \<Rightarrow> 'd list \<Rightarrow> 'x list list list option \<Rightarrow> string option \<Rightarrow> int \<Rightarrow> 'k \<Rightarrow>
   error + ('v, 'm, 'p) FittingProblemMultipleCondition" where
  "CTSN_init mkCTSN p complexityList fittingDataMultiple indepParamsListMultiple saveFilename' saveKey' kwargs =
     (case comprehension (\<lambda>(fittingData, indepParamsList).
               mkCTSN complexityList fittingData indepParamsList kwargs)
             (pairConditions fittingDataMultiple indepParamsListMultiple) of
        Inl e \<Rightarrow> Inl e
      | Inr fps \<Rightarrow> generalSetup p fps saveFilename' saveKey')"

section \<open>The complexity sweep\<close>

text \<open>
  The inner loop of \<open>fitAll\<close> over the conditions. The single-condition \<open>fitAll\<close> is the
  argument \<open>fit\<close>, called with the keyword arguments and \<open>maxNumFit\<close>; it changes the
  problem it is called on and may raise. After each fit the cost and the penalty of the
  current name are read from that problem's dictionaries (a missing key raises) and added
  to the running totals. The \<open>print\<close> statements are not modelled.
\<close>

fun fitConditions ::
  "('k \<Rightarrow> nat \<Rightarrow> ('v, 'm, 'p) FittingProblem \<Rightarrow> (unit, ('v, 'm, 'p) FittingProblem) outcome) \<Rightarrow>
   'k \<Rightarrow> nat \<Rightarrow> name \<Rightarrow> 'v::plus \<Rightarrow> 'v \<Rightarrow> ('v, 'm, 'p) FittingProblem list \<Rightarrow>
   ('v \<times> 'v, ('v, 'm, 'p) FittingProblem list) outcome" where
  "fitConditions fit kwargs maxNumFit nm costMultiple penaltyMultiple [] =
     Returned (costMultiple, penaltyMultiple) []"
| "fitConditions fit kwargs maxNumFit nm costMultiple penaltyMultiple (fittingProblem # fps) =
     (case fit kwargs maxNumFit fittingProblem of
        Raised e fp' \<Rightarrow> Raised e (fp' # fps)
      | Returned _ fp' \<Rightarrow>
          (case costDict fp' nm of
             None \<Rightarrow> Raised (KeyError nm) (fp' # fps)
           | Some c \<Rightarrow>
               (case penaltyDict fp' nm of
                  None \<Rightarrow> Raised (KeyError nm) (fp' # fps)
                | Some q \<Rightarrow>
                    (case fitConditions fit kwargs maxNumFit nm
                            (costMultiple + c) (penaltyMultiple + q) fps of
                       Raised e fps' \<Rightarrow> Raised e (fp' # fps')
                     | Returned r fps' \<Rightarrow> Returned r (fp' # fps')))))"

text \<open>
  \<open>max\<close> of a list: \<open>ValueError\<close> on the empty list, otherwise the first element is the
  candidate and a later element replaces it when it compares greater.
\<close>

fun py_max :: "'v::ord list \<Rightarrow> error + 'v" where
  "py_max [] = Inl ValueError"
| "py_max (x # xs) = Inr (foldl (\<lambda>m y. if y > m then y else m) x xs)"

text \<open>
  The slice \<open>xs[k:]\<close>: a negative start counts from the end and is clipped at the
  beginning of the list, a start beyond the end gives the empty list.
\<close>

definition slice_from :: "int \<Rightarrow> 'a list \<Rightarrow> 'a list" where
  "slice_from k xs =
     (let n = int (length xs);
          start = (if k < 0 then max (n + k) 0 else min k n)
      in drop (nat start) xs)"

text \<open>
  \<open>orderedLs\<close>: the recorded log-likelihoods, in the order of \<open>fittingModelNames\<close>; names
  without an entry are skipped.
\<close>

definition orderedLs :: "name list \<Rightarrow> (name \<rightharpoonup> 'v) \<Rightarrow> 'v list" where
  "orderedLs names ll = List.map_filter ll names"

text \<open>The stopping-window size in force: 3 when the aggregator has no \<open>stopFittingN\<close>.\<close>

definition window :: "('v, 'm, 'p) FittingProblemMultipleCondition \<Rightarrow> int" where
  "window s = (case stopFittingN s of None \<Rightarrow> 3 | Some w \<Rightarrow> w)"

text \<open>
  The check at the end of a sweep step (source lines 104 to 115). The missing attribute
  is set to 3 first; \<open>max(orderedLs[-stopFittingN:])\<close> is evaluated before
  \<open>max(orderedLs)\<close>.
\<close>

definition stoppingCheck ::
  "('v::ord, 'm, 'p) FittingProblemMultipleCondition \<Rightarrow>
   ('v, 'm, 'p) FittingProblemMultipleCondition flow" where
  "stoppingCheck s =
     (let s1 = s\<lparr>stopFittingN := Some (window s)\<rparr>;
          ls = orderedLs (fittingModelNames s1) (logLikelihoodDict s1)
      in if int (length ls) > window s then
           (case py_max (slice_from (- window s) ls) of
              Inl e \<Rightarrow> Raise e s1
            | Inr a \<Rightarrow>
                (case py_max ls of
                   Inl e \<Rightarrow> Raise e s1
                 | Inr b \<Rightarrow> if a < b then Return (s1\<lparr>fitAllDone := True\<rparr>) else Continue s1))
         else Continue s1)"

text \<open>
  The assignments of source lines 99 to 101: the totals and the log-likelihood are
  recorded under the current name.
\<close>

definition record_totals ::
  "name \<Rightarrow> 'v::{plus,uminus} \<Rightarrow> 'v \<Rightarrow> ('v, 'm, 'p) FittingProblemMultipleCondition \<Rightarrow>
   ('v, 'm, 'p) FittingProblemMultipleCondition" where
  "record_totals nm costMultiple penaltyMultiple s =
     s\<lparr> costDict := (costDict s)(nm \<mapsto> costMultiple),
        penaltyDict := (penaltyDict s)(nm \<mapsto> penaltyMultiple),
        logLikelihoodDict := (logLikelihoodDict s)(nm \<mapsto> - (costMultiple + penaltyMultiple)) \<rparr>"

text \<open>
  One iteration of the outer loop of \<open>fitAll\<close>, for the \<open>i\<close>-th name. The totals start at
  \<open>0.\<close>; after the recording, \<open>numParametersDict\<close> is taken from
  \<open>fittingProblemList[0]\<close> (which raises on an empty list), then the stopping check runs.
  The source makes the aggregator share the dictionary object of the first problem; the
  model stores the value the dictionary has at that moment.
\<close>

definition fitAll_step ::
  "('k \<Rightarrow> nat \<Rightarrow> ('v, 'm, 'p) FittingProblem \<Rightarrow> (unit, ('v, 'm, 'p) FittingProblem) outcome) \<Rightarrow>
   'k \<Rightarrow> nat \<Rightarrow> name \<Rightarrow> ('v::{zero,plus,uminus,ord}, 'm, 'p) FittingProblemMultipleCondition \<Rightarrow>
   ('v, 'm, 'p) FittingProblemMultipleCondition flow" where
  "fitAll_step fit kwargs i nm s =
     (case fitConditions fit kwargs (i + 1) nm 0 0 (fittingProblemList s) of
        Raised e fps' \<Rightarrow> Raise e (s\<lparr>fittingProblemList := fps'\<rparr>)
      | Returned (costMultiple, penaltyMultiple) fps' \<Rightarrow>
          (let s1 = record_totals nm costMultiple penaltyMultiple (s\<lparr>fittingProblemList := fps'\<rparr>)
           in case fps' of
                [] \<Rightarrow> Raise IndexError s1
              | f # _ \<Rightarrow> stoppingCheck (s1\<lparr>numParametersDict := numParametersDict f\<rparr>)))"

text \<open>The outer loop over \<open>enumerate(self.fittingModelNames)\<close>, from index \<open>i\<close> on.\<close>

fun fitAll_loop ::
  "('k \<Rightarrow> nat \<Rightarrow> ('v, 'm, 'p) FittingProblem \<Rightarrow> (unit, ('v, 'm, 'p) FittingProblem) outcome) \<Rightarrow>
   'k \<Rightarrow> nat \<Rightarrow> name list \<Rightarrow> ('v::{zero,plus,uminus,ord}, 'm, 'p) FittingProblemMultipleCondition \<Rightarrow>
   ('v, 'm, 'p) FittingProblemMultipleCondition flow" where
  "fitAll_loop fit kwargs i [] s = Continue s"
| "fitAll_loop fit kwargs i (nm # rest) s =
     (case fitAll_step fit kwargs i nm s of
        Raise e s' \<Rightarrow> Raise e s'
      | Return s' \<Rightarrow> Return s'
      | Continue s' \<Rightarrow> fitAll_loop fit kwargs (Suc i) rest s')"

text \<open>
  \<open>fitAll\<close>: an early \<open>return\<close> has set the flag already; a loop that runs to its end is
  followed by the assignment of source line 117.
\<close>

definition fitAll ::
  "('k \<Rightarrow> nat \<Rightarrow> ('v, 'm, 'p) FittingProblem \<Rightarrow> (unit, ('v, 'm, 'p) FittingProblem) outcome) \<Rightarrow>
   'k \<Rightarrow> ('v::{zero,plus,uminus,ord}, 'm, 'p) FittingProblemMultipleCondition \<Rightarrow>
   (unit, ('v, 'm, 'p) FittingProblemMultipleCondition) outcome" where
  "fitAll fit kwargs s =
     (case fitAll_loop fit kwargs 0 (fittingModelNames s) s of
        Raise e s' \<Rightarrow> Raised e s'
      | Return s' \<Rightarrow> Returned () s'
      | Continue s' \<Rightarrow> Returned () (s'\<lparr>fitAllDone := True\<rparr>))"

section \<open>Unsupported operations\<close>

text \<open>
  The methods of the base aggregator whose body is \<open>raise Exception, "Not implemented"\<close>.
  The methods \<open>_StiffSingVals\<close>, \<open>_UpdateDicts\<close> and \<open>_fixOldVersion\<close> lose their leading
  underscore, and \<open>__init__\<close> above is \<open>init\<close>. Raising leaves the aggregator as it was.
\<close>

definition numStiffSingVals ::
  "('v, 'm, 'p) FittingProblemMultipleCondition \<Rightarrow> 'k \<Rightarrow>
   (unit, ('v, 'm, 'p) FittingProblemMultipleCondition) outcome" where
  "numStiffSingVals s kwargs = Raised (Exception ''Not implemented'') s"

definition StiffSingVals ::
  "('v, 'm, 'p) FittingProblemMultipleCondition \<Rightarrow> 'k \<Rightarrow>
   (unit, ('v, 'm, 'p) FittingProblemMultipleCondition) outcome" where
  "StiffSingVals s kwargs = Raised (Exception ''Not implemented'') s"

definition UpdateDicts ::
  "('v, 'm, 'p) FittingProblemMultipleCondition \<Rightarrow> name \<Rightarrow>
   (unit, ('v, 'm, 'p) FittingProblemMultipleCondition) outcome" where
  "UpdateDicts s nm = Raised (Exception ''Not implemented'') s"

definition correlationWithPerfectModel ::
  "('v, 'm, 'p) FittingProblemMultipleCondition \<Rightarrow> 'k \<Rightarrow>
   (unit, ('v, 'm, 'p) FittingProblemMultipleCondition) outcome" where
  "correlationWithPerfectModel s kwargs = Raised (Exception ''Not implemented'') s"

definition outOfSampleCorrelation ::
  "('v, 'm, 'p) FittingProblemMultipleCondition \<Rightarrow> 'k \<Rightarrow>
   (unit, ('v, 'm, 'p) FittingProblemMultipleCondition) outcome" where
  "outOfSampleCorrelation s kwargs = Raised (Exception ''Not implemented'') s"

definition calculateAllOutOfSampleCorrelation ::
  "('v, 'm, 'p) FittingProblemMultipleCondition \<Rightarrow> 'k \<Rightarrow>
   (unit, ('v, 'm, 'p) FittingProblemMultipleCondition) outcome" where
  "calculateAllOutOfSampleCorrelation s kwargs = Raised (Exception ''Not implemented'') s"

definition fixOldVersion ::
  "('v, 'm, 'p) FittingProblemMultipleCondition \<Rightarrow>
   (unit, ('v, 'm, 'p) FittingProblemMultipleCondition) outcome" where
  "fixOldVersion s = Raised (Exception ''Not implemented'') s"

section \<open>Best-model retrieval\<close>

text \<open>
  \<open>getBestModel\<close>. The inherited \<open>maxLogLikelihoodName\<close> is the argument \<open>select\<close>; it is
  called only when no model name is given. The list comprehension looks the name up in
  the \<open>fittingModelDict\<close> of every problem, in order.
\<close>

definition getBestModel ::
  "(('v, 'm, 'p) FittingProblemMultipleCondition \<Rightarrow> int \<Rightarrow> error + name) \<Rightarrow>
   ('v, 'm, 'p) FittingProblemMultipleCondition \<Rightarrow> name option \<Rightarrow> int \<Rightarrow> 'k \<Rightarrow>
   error + 'm list" where
  "getBestModel select s modelName maxIndex kwargs =
     (case (case modelName of None \<Rightarrow> select s maxIndex | Some nm \<Rightarrow> Inr nm) of
        Inl e \<Rightarrow> Inl e
      | Inr nm \<Rightarrow>
          comprehension
            (\<lambda>f. case fittingModelDict f nm of None \<Rightarrow> Inl (KeyError nm) | Some m \<Rightarrow> Inr m)
            (fittingProblemList s))"

section \<open>States of results, and a small instance\<close>

fun flow_state :: "'s flow \<Rightarrow> 's" where
  "flow_state (Raise e s) = s"
| "flow_state (Return s) = s"
| "flow_state (Continue s) = s"

fun outcome_state :: "('r, 's) outcome \<Rightarrow> 's" where
  "outcome_state (Raised e s) = s"
| "outcome_state (Returned r s) = s"

text \<open>
  A single-condition problem over the names \<open>a\<close>, \<open>b\<close>, \<open>c\<close> with integer costs, whose
  three models are fitted already (the fitted model of \<open>c\<close> has not been stored), and an
  aggregator over two such problems with a stopping window of 1.
\<close>

definition example_problem :: "int \<Rightarrow> int \<Rightarrow> nat \<Rightarrow> (int, nat, unit) FittingProblem" where
  "example_problem ca cb m =
     \<lparr> costDict = [''a'' \<mapsto> ca, ''b'' \<mapsto> cb, ''c'' \<mapsto> 0],
       penaltyDict = [''a'' \<mapsto> 1, ''b'' \<mapsto> 1, ''c'' \<mapsto> 1],
       numParametersDict = [''a'' \<mapsto> 1, ''b'' \<mapsto> 2, ''c'' \<mapsto> 3],
       fittingModelNames = [''a'', ''b'', ''c''],
       indepParamNames = [],
       cutoff = 0,
       verbose = False,
       perfectModel = None,
       perfectParams = None,
       stopFittingN = Some 1,
       fittingModelDict = [''a'' \<mapsto> m, ''b'' \<mapsto> Suc m] \<rparr>"

definition example_aggregator :: "(int, nat, unit) FittingProblemMultipleCondition" where
  "example_aggregator =
     \<lparr> costDict = Map.empty,
       penaltyDict = Map.empty,
       numParametersDict = Map.empty,
       fittingModelNames = [''a'', ''b'', ''c''],
       indepParamNames = [],
       cutoff = 0,
       verbose = False,
       perfectModel = None,
       perfectParams = None,
       stopFittingN = Some 1,
       logLikelihoodDict = Map.empty,
       fitAllDone = False,
       saveFilename = None,
       saveKey = - 1,
       pid = 0,
       fittingProblemList = [example_problem 1 2 10, example_problem 1 1 20] \<rparr>"

text \<open>
  Two single-condition fits for the instance: one that finds every model fitted already
  and changes nothing, one that raises as soon as a second model is asked for.
\<close>

definition cached_fit ::
  "unit \<Rightarrow> nat \<Rightarrow> (int, nat, unit) FittingProblem \<Rightarrow> (unit, (int, nat, unit) FittingProblem) outcome" where
  "cached_fit kwargs maxNumFit fp = Returned () fp"

definition failing_fit ::
  "unit \<Rightarrow> nat \<Rightarrow> (int, nat, unit) FittingProblem \<Rightarrow> (unit, (int, nat, unit) FittingProblem) outcome" where
  "failing_fit kwargs maxNumFit fp =
     (if 2 \<le> maxNumFit then Raised (Exception ''fit failed'') fp else Returned () fp)"

definition example_select ::
  "(int, nat, unit) FittingProblemMultipleCondition \<Rightarrow> int \<Rightarrow> error + name" where
  "example_select s maxIndex = Inr ''c''"

text \<open>The instance after the sweep step for \<open>a\<close> has recorded its totals.\<close>

definition example_recorded_a :: "(int, nat, unit) FittingProblemMultipleCondition" where
  "example_recorded_a =
     example_aggregator
       \<lparr> costDict := [''a'' \<mapsto> 2],
         penaltyDict := [''a'' \<mapsto> 2],
         numParametersDict := [''a'' \<mapsto> 1, ''b'' \<mapsto> 2, ''c'' \<mapsto> 3],
         logLikelihoodDict := [''a'' \<mapsto> - 4] \<rparr>"

text \<open>The instance after the sweep step for \<open>b\<close>, at which the sweep stops.\<close>

definition example_stopped :: "(int, nat, unit) FittingProblemMultipleCondition" where
  "example_stopped =
     example_aggregator
       \<lparr> costDict := [''a'' \<mapsto> 2, ''b'' \<mapsto> 3],
         penaltyDict := [''a'' \<mapsto> 2, ''b'' \<mapsto> 2],
         numParametersDict := [''a'' \<mapsto> 1, ''b'' \<mapsto> 2, ''c'' \<mapsto> 3],
         logLikelihoodDict := [''a'' \<mapsto> - 4, ''b'' \<mapsto> - 5],
         fitAllDone := True \<rparr>"

text \<open>
  The names in \<open>N\<close> are exactly the keys that the three aggregate dictionaries of \<open>s'\<close>
  have in addition to those of \<open>s\<close>.
\<close>

definition entries_added ::
  "('v, 'm, 'p) FittingProblemMultipleCondition \<Rightarrow> ('v, 'm, 'p) FittingProblemMultipleCondition \<Rightarrow>
   name set \<Rightarrow> bool" where
  "entries_added s s' N \<longleftrightarrow>
     dom (costDict s') = dom (costDict s) \<union> N \<and>
     dom (penaltyDict s') = dom (penaltyDict s) \<union> N \<and>
     dom (logLikelihoodDict s') = dom (logLikelihoodDict s) \<union> N"


definition example_default_window :: "(int, nat, unit) FittingProblemMultipleCondition" where
  "example_default_window = example_aggregator\<lparr>stopFittingN := None\<rparr>"

text \<open>
  A constructor of single-condition problems for the instance: it never raises and every
  problem it builds has a \<open>stopFittingN\<close>.
\<close>

definition example_mk ::
  "nat \<Rightarrow> unit \<Rightarrow> nat list list \<Rightarrow> unit \<Rightarrow> error + (int, nat, unit) FittingProblem" where
  "example_mk fittingData fittingModelList indepParamsList kwargs =
     Inr (example_problem (int fittingData) 1 fittingData)"

section \<open>List comprehensions\<close>

lemma comprehension_Inr_length:
  "comprehension f xs = Inr ys \<Longrightarrow> length ys = length xs"
  by (induction xs arbitrary: ys) (auto split: sum.splits)

lemma comprehension_Inr_map:
  "comprehension f xs = Inr ys \<Longrightarrow> map f xs = map Inr ys"
  by (induction xs arbitrary: ys) (auto split: sum.splits)

lemma comprehension_lookup_Inr:
  "(\<forall>f\<in>set fps. d f nm \<noteq> None) \<Longrightarrow>
   comprehension (\<lambda>f. case d f nm of None \<Rightarrow> Inl (KeyError nm) | Some m \<Rightarrow> Inr m) fps
     = Inr (map (\<lambda>f. the (d f nm)) fps)"
  by (induction fps) auto

lemma comprehension_lookup_Inl:
  "\<exists>f\<in>set fps. d f nm = None \<Longrightarrow>
   comprehension (\<lambda>f. case d f nm of None \<Rightarrow> Inl (KeyError nm) | Some m \<Rightarrow> Inr m) fps
     = Inl (KeyError nm)"
proof (induction fps)
  case Nil
  then show ?case by simp
next
  case (Cons f fps)
  show ?case
  proof (cases "d f nm")
    case None
    then show ?thesis by simp
  next
    case (Some m)
    with Cons.prems have "\<exists>g\<in>set fps. d g nm = None" by auto
    with Cons.IH Some show ?thesis by simp
  qed
qed

section \<open>Best-model retrieval with an explicit name\<close>

text \<open>
  Claim C8. With an explicit model name, \<open>getBestModel\<close> returns the fitted models stored
  under that name, one per single-condition problem and in the order of
  \<open>fittingProblemList\<close>, when every problem has one; when some problem has none, it raises
  \<open>KeyError\<close> for that name.
\<close>

theorem getBestModel_explicit_name:
  "getBestModel select s (Some nm) maxIndex kwargs =
     (if \<forall>f\<in>set (fittingProblemList s). fittingModelDict f nm \<noteq> None
      then Inr (map (\<lambda>f. the (fittingModelDict f nm)) (fittingProblemList s))
      else Inl (KeyError nm)) \<and>
   (\<forall>ms. getBestModel select s (Some nm) maxIndex kwargs = Inr ms \<longrightarrow>
      length ms = length (fittingProblemList s))"
  by (auto simp: getBestModel_def comprehension_lookup_Inr comprehension_lookup_Inl
      dest: comprehension_Inr_length)

theorem getBestModel_explicit_name_witness:
  "getBestModel example_select example_aggregator (Some ''b'') (- 4) () = Inr [11, 21] \<and>
   getBestModel example_select example_aggregator (Some ''c'') (- 4) () = Inl (KeyError ''c'')"
  using getBestModel_explicit_name [of example_select example_aggregator "''b''" "- 4" "()"]
    getBestModel_explicit_name [of example_select example_aggregator "''c''" "- 4" "()"]
  by (simp add: example_aggregator_def example_problem_def)

text \<open>
  Claim C10. With an explicit model name, the result of \<open>getBestModel\<close> depends neither
  on \<open>maxIndex\<close> nor on the selection operation \<open>maxLogLikelihoodName\<close>, which is not
  consulted.
\<close>

theorem getBestModel_ignores_maxIndex:
  "getBestModel select s (Some nm) maxIndex kwargs =
   getBestModel select' s (Some nm) maxIndex' kwargs"
  by (simp add: getBestModel_def)

section \<open>Unsupported operations\<close>

text \<open>
  Claim C7. Each of the seven unsupported operations of the base aggregator raises
  \<open>Exception("Not implemented")\<close> for every argument and leaves the aggregator as it was.
\<close>

theorem unsupported_operations_raise:
  "numStiffSingVals s kwargs = Raised (Exception ''Not implemented'') s \<and>
   StiffSingVals s kwargs = Raised (Exception ''Not implemented'') s \<and>
   UpdateDicts s nm = Raised (Exception ''Not implemented'') s \<and>
   correlationWithPerfectModel s kwargs = Raised (Exception ''Not implemented'') s \<and>
   outOfSampleCorrelation s kwargs = Raised (Exception ''Not implemented'') s \<and>
   calculateAllOutOfSampleCorrelation s kwargs = Raised (Exception ''Not implemented'') s \<and>
   fixOldVersion s = Raised (Exception ''Not implemented'') s"
  by (simp add: numStiffSingVals_def StiffSingVals_def UpdateDicts_def
      correlationWithPerfectModel_def outOfSampleCorrelation_def
      calculateAllOutOfSampleCorrelation_def fixOldVersion_def)

section \<open>The inner loop over the conditions\<close>

lemma fitConditions_Returned:
  "fitConditions fit kw n nm c p fps = Returned (c', p') fps' \<Longrightarrow>
     list_all2 (\<lambda>f f'. fit kw n f = Returned () f') fps fps' \<and>
     (\<forall>f'\<in>set fps'. costDict f' nm \<noteq> None \<and> penaltyDict f' nm \<noteq> None) \<and>
     c' = foldl (+) c (map (\<lambda>f'. the (costDict f' nm)) fps') \<and>
     p' = foldl (+) p (map (\<lambda>f'. the (penaltyDict f' nm)) fps')"
proof (induction fps arbitrary: c p fps')
  case Nil
  then show ?case by simp
next
  case (Cons f fps)
  from Cons.prems obtain g cf qf gs where
    fit: "fit kw n f = Returned () g" and cf: "costDict g nm = Some cf"
    and qf: "penaltyDict g nm = Some qf"
    and rest: "fitConditions fit kw n nm (c + cf) (p + qf) fps = Returned (c', p') gs"
    and fps': "fps' = g # gs"
    by (auto split: outcome.splits option.splits)
  from Cons.IH [OF rest] fit cf qf fps' show ?case by simp
qed

lemma fitConditions_length:
  "length (outcome_state (fitConditions fit kw n nm c p fps)) = length fps"
proof (induction fps arbitrary: c p)
  case Nil
  then show ?case by simp
next
  case (Cons f fps)
  show ?case
  proof (cases "fit kw n f")
    case (Raised e g)
    then show ?thesis by simp
  next
    case (Returned u g)
    show ?thesis
    proof (cases "costDict g nm")
      case None
      with Returned show ?thesis by simp
    next
      case (Some a)
      note a = Some
      show ?thesis
      proof (cases "penaltyDict g nm")
        case None
        with Returned a show ?thesis by simp
      next
        case (Some b)
        from Cons.IH [of "c + a" "p + b"] Returned a Some show ?thesis
          by (cases "fitConditions fit kw n nm (c + a) (p + b) fps") simp_all
      qed
    qed
  qed
qed

lemma fitConditions_Raised_first:
  assumes "\<forall>g\<in>set done. \<exists>g' a b. fit kw n g = Returned () g' \<and> costDict g' nm = Some a \<and> penaltyDict g' nm = Some b"
    and "fit kw n f = Raised e f'"
  shows "\<exists>fps'. fitConditions fit kw n nm c p (done @ f # todo) = Raised e fps'"
  using assms
proof (induction "done" arbitrary: c p)
  case Nil
  then show ?case by simp
next
  case (Cons g gs)
  from Cons.prems(1) obtain g' a b where
    g: "fit kw n g = Returned () g'" "costDict g' nm = Some a" "penaltyDict g' nm = Some b"
    by auto
  from Cons.prems(1) have "\<forall>h\<in>set gs. \<exists>g' a b. fit kw n h = Returned () g' \<and> costDict g' nm = Some a \<and> penaltyDict g' nm = Some b"
    by simp
  from Cons.IH [OF this Cons.prems(2), of "c + a" "p + b"] g show ?case by auto
qed

lemma fitConditions_Raised_any:
  assumes "\<exists>f\<in>set fps. \<exists>e f'. fit kw n f = Raised e f'"
  shows "\<exists>e fps'. fitConditions fit kw n nm c p fps = Raised e fps'"
  using assms
proof (induction fps arbitrary: c p)
  case Nil
  then show ?case by simp
next
  case (Cons f fps)
  show ?case
  proof (cases "fitConditions fit kw n nm c p (f # fps)")
    case (Raised e fps')
    then show ?thesis by blast
  next
    case (Returned r fps')
    then obtain g a b where g: "fit kw n f = Returned () g" "costDict g nm = Some a" "penaltyDict g nm = Some b"
      by (auto split: outcome.splits option.splits)
    with Cons.prems have "\<exists>f\<in>set fps. \<exists>e f'. fit kw n f = Raised e f'" by auto
    from Cons.IH [OF this, of "c + a" "p + b"] g Returned show ?thesis by auto
  qed
qed


section \<open>The stopping check\<close>

lemma foldl_greater_fold_max:
  fixes a :: "'a::linorder"
  shows "foldl (\<lambda>m y. if y > m then y else m) a ys = fold max ys a"
proof (induction ys arbitrary: a)
  case Nil
  then show ?case by simp
next
  case (Cons y ys)
  have "(if a < y then y else a) = max y a" by (auto simp: max_def)
  with Cons.IH [of "max y a"] show ?case by simp
qed

lemma py_max_linorder:
  fixes xs :: "'a::linorder list"
  assumes "xs \<noteq> []"
  shows "py_max xs = Inr (Max (set xs))"
proof -
  from assms obtain x ys where xs: "xs = x # ys" by (cases xs) auto
  show ?thesis unfolding xs by (simp only: py_max.simps foldl_greater_fold_max Max.set_eq_fold)
qed


lemma stoppingCheck_state:
  "flow_state (stoppingCheck s) = s\<lparr>stopFittingN := Some (window s)\<rparr> \<or>
   flow_state (stoppingCheck s) = s\<lparr>stopFittingN := Some (window s), fitAllDone := True\<rparr>"
  by (auto simp: stoppingCheck_def Let_def split: sum.splits)


lemma stoppingCheck_fields:
  "costDict (flow_state (stoppingCheck s)) = costDict s"
  "penaltyDict (flow_state (stoppingCheck s)) = penaltyDict s"
  "logLikelihoodDict (flow_state (stoppingCheck s)) = logLikelihoodDict s"
  "numParametersDict (flow_state (stoppingCheck s)) = numParametersDict s"
  "fittingModelNames (flow_state (stoppingCheck s)) = fittingModelNames s"
  "fittingProblemList (flow_state (stoppingCheck s)) = fittingProblemList s"
  "window (flow_state (stoppingCheck s)) = window s"
  using stoppingCheck_state [of s] by (auto simp: window_def)

section \<open>One sweep step\<close>

lemma fitAll_step_Raised:
  "fitConditions fit kw (Suc i) nm 0 0 (fittingProblemList s) = Raised e fps' \<Longrightarrow>
   fitAll_step fit kw i nm s = Raise e (s\<lparr>fittingProblemList := fps'\<rparr>)"
  by (simp add: fitAll_step_def)

lemma fitAll_step_Returned_Nil:
  "fitConditions fit kw (Suc i) nm 0 0 (fittingProblemList s) = Returned (c, p) [] \<Longrightarrow>
   fitAll_step fit kw i nm s =
     Raise IndexError (record_totals nm c p (s\<lparr>fittingProblemList := []\<rparr>))"
  by (simp add: fitAll_step_def)

lemma fitAll_step_Returned_Cons:
  "fitConditions fit kw (Suc i) nm 0 0 (fittingProblemList s) = Returned (c, p) (f # fs) \<Longrightarrow>
   fitAll_step fit kw i nm s =
     stoppingCheck ((record_totals nm c p (s\<lparr>fittingProblemList := f # fs\<rparr>))
                      \<lparr>numParametersDict := numParametersDict f\<rparr>)"
  by (simp add: fitAll_step_def)

lemma fitAll_step_cases [case_names fit_raised no_problem checked]:
  obtains
    (fit_raised) e fps' where
      "fitConditions fit kw (Suc i) nm 0 0 (fittingProblemList s) = Raised e fps'"
      "fitAll_step fit kw i nm s = Raise e (s\<lparr>fittingProblemList := fps'\<rparr>)"
  | (no_problem) c p where
      "fitConditions fit kw (Suc i) nm 0 0 (fittingProblemList s) = Returned (c, p) []"
      "fitAll_step fit kw i nm s =
         Raise IndexError (record_totals nm c p (s\<lparr>fittingProblemList := []\<rparr>))"
  | (checked) c p f fs where
      "fitConditions fit kw (Suc i) nm 0 0 (fittingProblemList s) = Returned (c, p) (f # fs)"
      "fitAll_step fit kw i nm s =
         stoppingCheck ((record_totals nm c p (s\<lparr>fittingProblemList := f # fs\<rparr>))
                          \<lparr>numParametersDict := numParametersDict f\<rparr>)"
proof (cases "fitConditions fit kw (Suc i) nm 0 0 (fittingProblemList s)")
  case (Raised e fps')
  then show ?thesis by (intro fit_raised) (simp_all add: fitAll_step_Raised)
next
  case (Returned r fps')
  obtain c p where r: "r = (c, p)" by (cases r)
  show ?thesis
  proof (cases fps')
    case Nil
    with Returned r show ?thesis by (intro no_problem) (simp_all add: fitAll_step_Returned_Nil)
  next
    case (Cons f fs)
    with Returned r show ?thesis by (intro checked) (simp_all add: fitAll_step_Returned_Cons)
  qed
qed

lemma record_totals_fields:
  "costDict (record_totals nm c p s) = (costDict s)(nm \<mapsto> c)"
  "penaltyDict (record_totals nm c p s) = (penaltyDict s)(nm \<mapsto> p)"
  "logLikelihoodDict (record_totals nm c p s) = (logLikelihoodDict s)(nm \<mapsto> - (c + p))"
  "fittingModelNames (record_totals nm c p s) = fittingModelNames s"
  "fittingProblemList (record_totals nm c p s) = fittingProblemList s"
  "stopFittingN (record_totals nm c p s) = stopFittingN s"
  by (simp_all add: record_totals_def)

lemma fitAll_step_names:
  "fittingModelNames (flow_state (fitAll_step fit kw i nm s)) = fittingModelNames s"
  by (cases rule: fitAll_step_cases [of fit kw i nm s])
    (simp_all add: stoppingCheck_fields record_totals_fields)

lemma window_updates:
  "window (record_totals nm c p s) = window s"
  "window (s\<lparr>fittingProblemList := fps\<rparr>) = window s"
  "window (s\<lparr>numParametersDict := d\<rparr>) = window s"
  by (simp_all add: window_def record_totals_def)

lemma fitAll_step_window:
  "window (flow_state (fitAll_step fit kw i nm s)) = window s"
  by (cases rule: fitAll_step_cases [of fit kw i nm s])
    (simp_all add: stoppingCheck_fields window_updates)

lemma fitAll_step_length:
  "length (fittingProblemList (flow_state (fitAll_step fit kw i nm s))) =
   length (fittingProblemList s)"
  using fitConditions_length [of fit kw "Suc i" nm 0 0 "fittingProblemList s"]
  by (cases rule: fitAll_step_cases [of fit kw i nm s])
    (simp_all add: stoppingCheck_fields record_totals_fields)

text \<open>Either the inner loop raised and nothing was recorded, or the totals were recorded.\<close>

lemma fitAll_step_dicts:
  assumes "s' = flow_state (fitAll_step fit kw i nm s)"
  shows "(\<exists>e fps'. fitConditions fit kw (Suc i) nm 0 0 (fittingProblemList s) = Raised e fps' \<and>
            fitAll_step fit kw i nm s = Raise e (s\<lparr>fittingProblemList := fps'\<rparr>)) \<or>
         (\<exists>c p fps'. fitConditions fit kw (Suc i) nm 0 0 (fittingProblemList s) = Returned (c, p) fps' \<and>
            costDict s' = (costDict s)(nm \<mapsto> c) \<and>
            penaltyDict s' = (penaltyDict s)(nm \<mapsto> p) \<and>
            logLikelihoodDict s' = (logLikelihoodDict s)(nm \<mapsto> - (c + p)) \<and>
            fittingProblemList s' = fps')"
  unfolding assms
  by (cases rule: fitAll_step_cases [of fit kw i nm s])
    (simp_all add: stoppingCheck_fields record_totals_fields)

lemma fitAll_step_other_keys:
  assumes "m \<noteq> nm"
  shows "costDict (flow_state (fitAll_step fit kw i nm s)) m = costDict s m"
    and "penaltyDict (flow_state (fitAll_step fit kw i nm s)) m = penaltyDict s m"
    and "logLikelihoodDict (flow_state (fitAll_step fit kw i nm s)) m = logLikelihoodDict s m"
  using assms fitAll_step_dicts [OF refl, of fit kw i nm s] by auto

lemma fitAll_step_not_Raise_recorded:
  assumes "fitAll_step fit kw i nm s = Return s' \<or> fitAll_step fit kw i nm s = Continue s'"
  shows "\<exists>c p. fitConditions fit kw (Suc i) nm 0 0 (fittingProblemList s) =
             Returned (c, p) (fittingProblemList s') \<and>
           costDict s' = (costDict s)(nm \<mapsto> c) \<and>
           penaltyDict s' = (penaltyDict s)(nm \<mapsto> p) \<and>
           logLikelihoodDict s' = (logLikelihoodDict s)(nm \<mapsto> - (c + p))"
  using assms fitAll_step_dicts [OF refl, of fit kw i nm s] by auto

section \<open>The instance, evaluated\<close>

lemma example_fitConditions_a:
  "fitConditions cached_fit () (Suc 0) ''a'' 0 0 (fittingProblemList example_aggregator)
     = Returned (2, 2) (fittingProblemList example_aggregator)"
  by (simp add: example_aggregator_def example_problem_def cached_fit_def)

lemma example_step_a:
  "fitAll_step cached_fit () 0 ''a'' example_aggregator = Continue example_recorded_a"
  apply (simp add: fitAll_step_def example_fitConditions_a Let_def)
  apply (simp add: example_aggregator_def example_recorded_a_def record_totals_def
      stoppingCheck_def window_def orderedLs_def map_filter_def example_problem_def Let_def)
  done

section \<open>What a sweep step records\<close>

text \<open>
  Claim C2. When a sweep step gets as far as the stopping check without raising, there is
  at least one condition, every single-condition problem has been fitted by this step
  with \<open>maxNumFit = i + 1\<close> and holds a cost and a penalty for the name, and the
  aggregator stores under the name: as cost, the per-condition costs added to \<open>0\<close> one
  after the other in the order of the conditions; as penalty, the same sum of the
  per-condition penalties; as log-likelihood, the negation of the stored cost plus the
  stored penalty. The number type is arbitrary, so the sums are the ones the program
  computes, in its order of additions.
\<close>

theorem step_records_sums:
  assumes "fitAll_step fit kwargs i nm s = Return s' \<or> fitAll_step fit kwargs i nm s = Continue s'"
  shows "fittingProblemList s' \<noteq> [] \<and>
         list_all2 (\<lambda>f f'. fit kwargs (Suc i) f = Returned () f')
           (fittingProblemList s) (fittingProblemList s') \<and>
         (\<forall>f'\<in>set (fittingProblemList s'). costDict f' nm \<noteq> None \<and> penaltyDict f' nm \<noteq> None) \<and>
         costDict s' nm =
           Some (foldl (+) 0 (map (\<lambda>f'. the (costDict f' nm)) (fittingProblemList s'))) \<and>
         penaltyDict s' nm =
           Some (foldl (+) 0 (map (\<lambda>f'. the (penaltyDict f' nm)) (fittingProblemList s'))) \<and>
         logLikelihoodDict s' nm = Some (- (the (costDict s' nm) + the (penaltyDict s' nm)))"
proof -
  from fitAll_step_not_Raise_recorded [OF assms] obtain c p where
    fc: "fitConditions fit kwargs (Suc i) nm 0 0 (fittingProblemList s) =
           Returned (c, p) (fittingProblemList s')"
    and dicts: "costDict s' = (costDict s)(nm \<mapsto> c)" "penaltyDict s' = (penaltyDict s)(nm \<mapsto> p)"
      "logLikelihoodDict s' = (logLikelihoodDict s)(nm \<mapsto> - (c + p))"
    by blast
  have "fittingProblemList s' \<noteq> []"
  proof
    assume "fittingProblemList s' = []"
    with fc have "fitAll_step fit kwargs i nm s =
        Raise IndexError (record_totals nm c p (s\<lparr>fittingProblemList := []\<rparr>))"
      by (simp add: fitAll_step_Returned_Nil)
    with assms show False by auto
  qed
  with fitConditions_Returned [OF fc] dicts show ?thesis by simp
qed

theorem step_records_sums_witness:
  "fitAll_step cached_fit () 0 ''a'' example_aggregator = Continue example_recorded_a \<and>
   map (\<lambda>f'. the (costDict f' ''a'')) (fittingProblemList example_recorded_a) = [1, 1] \<and>
   map (\<lambda>f'. the (penaltyDict f' ''a'')) (fittingProblemList example_recorded_a) = [1, 1] \<and>
   costDict example_recorded_a ''a'' = Some (foldl (+) 0 [1, 1]) \<and>
   penaltyDict example_recorded_a ''a'' = Some (foldl (+) 0 [1, 1]) \<and>
   logLikelihoodDict example_recorded_a ''a'' = Some (- 4)"
proof -
  have maps: "map (\<lambda>f'. the (costDict f' ''a'')) (fittingProblemList example_recorded_a) = [1, 1]"
    "map (\<lambda>f'. the (penaltyDict f' ''a'')) (fittingProblemList example_recorded_a) = [1, 1]"
    by (simp_all add: example_recorded_a_def example_aggregator_def example_problem_def)
  from step_records_sums [of cached_fit "()" 0 "''a''" example_aggregator example_recorded_a]
    example_step_a maps
  show ?thesis by simp
qed

section \<open>The outer loop\<close>

lemma fitAll_loop_append:
  "fitAll_loop fit kw i (xs @ ys) s =
     (case fitAll_loop fit kw i xs s of
        Raise e s1 \<Rightarrow> Raise e s1
      | Return s1 \<Rightarrow> Return s1
      | Continue s1 \<Rightarrow> fitAll_loop fit kw (i + length xs) ys s1)"
  by (induction xs arbitrary: i s) (auto split: flow.splits)

lemma fitAll_loop_Cons_state:
  "flow_state (fitAll_loop fit kw i (nm # rest) s) =
     (case fitAll_step fit kw i nm s of
        Continue s1 \<Rightarrow> flow_state (fitAll_loop fit kw (Suc i) rest s1)
      | r \<Rightarrow> flow_state r)"
  by (simp split: flow.splits)

lemma fitAll_loop_invariant:
  assumes "P s"
    and "\<And>i nm s. nm \<in> set names \<Longrightarrow> P s \<Longrightarrow> P (flow_state (fitAll_step fit kw i nm s))"
  shows "P (flow_state (fitAll_loop fit kw i names s))"
  using assms
proof (induction names arbitrary: i s)
  case Nil
  then show ?case by simp
next
  case (Cons nm rest)
  have step: "P (flow_state (fitAll_step fit kw i nm s))"
    using Cons.prems by simp
  show ?case
  proof (cases "fitAll_step fit kw i nm s")
    case (Raise e s1)
    with step show ?thesis by simp
  next
    case (Return s1)
    with step show ?thesis by simp
  next
    case (Continue s1)
    with step have "P s1" by simp
    then have "P (flow_state (fitAll_loop fit kw (Suc i) rest s1))"
      using Cons.prems(2) by (intro Cons.IH) simp_all
    with Continue show ?thesis by simp
  qed
qed

lemma fitAll_loop_names:
  "fittingModelNames (flow_state (fitAll_loop fit kw i names s)) = fittingModelNames s"
  by (rule fitAll_loop_invariant [where P = "\<lambda>t. fittingModelNames t = fittingModelNames s"])
    (simp_all add: fitAll_step_names)

lemma fitAll_loop_window:
  "window (flow_state (fitAll_loop fit kw i names s)) = window s"
  by (rule fitAll_loop_invariant [where P = "\<lambda>t. window t = window s"])
    (simp_all add: fitAll_step_window)

lemma fitAll_loop_length:
  "length (fittingProblemList (flow_state (fitAll_loop fit kw i names s))) =
   length (fittingProblemList s)"
  by (rule fitAll_loop_invariant
      [where P = "\<lambda>t. length (fittingProblemList t) = length (fittingProblemList s)"])
    (simp_all add: fitAll_step_length)

lemma fitAll_loop_other_keys:
  assumes "m \<notin> set names"
  shows "costDict (flow_state (fitAll_loop fit kw i names s)) m = costDict s m \<and>
         penaltyDict (flow_state (fitAll_loop fit kw i names s)) m = penaltyDict s m \<and>
         logLikelihoodDict (flow_state (fitAll_loop fit kw i names s)) m = logLikelihoodDict s m"
proof (rule fitAll_loop_invariant
    [where P = "\<lambda>t. costDict t m = costDict s m \<and> penaltyDict t m = penaltyDict s m \<and>
                  logLikelihoodDict t m = logLikelihoodDict s m"])
  show "costDict s m = costDict s m \<and> penaltyDict s m = penaltyDict s m \<and>
        logLikelihoodDict s m = logLikelihoodDict s m" by simp
next
  fix i nm and t :: "('a, 'b, 'c) FittingProblemMultipleCondition"
  assume "nm \<in> set names"
    and t: "costDict t m = costDict s m \<and> penaltyDict t m = penaltyDict s m \<and>
      logLikelihoodDict t m = logLikelihoodDict s m"
  with assms have "m \<noteq> nm" by auto
  from fitAll_step_other_keys [OF this, of fit kw i t] t
  show "costDict (flow_state (fitAll_step fit kw i nm t)) m = costDict s m \<and>
        penaltyDict (flow_state (fitAll_step fit kw i nm t)) m = penaltyDict s m \<and>
        logLikelihoodDict (flow_state (fitAll_step fit kw i nm t)) m = logLikelihoodDict s m"
    by simp
qed

lemma entries_added_trans:
  "entries_added s s1 A \<Longrightarrow> entries_added s1 s2 B \<Longrightarrow> entries_added s s2 (A \<union> B)"
  by (auto simp: entries_added_def)

lemma fitAll_step_entries:
  "(\<exists>e s1. fitAll_step fit kw i nm s = Raise e s1 \<and> entries_added s s1 {}) \<or>
   entries_added s (flow_state (fitAll_step fit kw i nm s)) {nm}"
  using fitAll_step_dicts [OF refl, of fit kw i nm s]
  by (auto simp: entries_added_def)

lemma fitAll_loop_prefix:
  "\<exists>k\<le>length names.
     entries_added s (flow_state (fitAll_loop fit kw i names s)) (set (take k names)) \<and>
     ((\<exists>t. fitAll_loop fit kw i names s = Continue t) \<longrightarrow> k = length names) \<and>
     ((\<exists>t. fitAll_loop fit kw i names s = Return t) \<longrightarrow>
        0 < k \<and>
        (\<exists>s1. fitAll_loop fit kw i (take (k - 1) names) s = Continue s1 \<and>
              fitAll_step fit kw (i + (k - 1)) (names ! (k - 1)) s1 =
                fitAll_loop fit kw i names s))"
proof (induction names arbitrary: i s)
  case Nil
  show ?case by (simp add: entries_added_def)
next
  case (Cons nm rest)
  let ?r = "fitAll_loop fit kw i (nm # rest) s"
  have "(\<exists>e s1. fitAll_step fit kw i nm s = Raise e s1 \<and> entries_added s s1 {}) \<or>
        entries_added s (flow_state (fitAll_step fit kw i nm s)) {nm}"
    by (rule fitAll_step_entries)
  then show ?case
  proof
    assume "\<exists>e s1. fitAll_step fit kw i nm s = Raise e s1 \<and> entries_added s s1 {}"
    then obtain e s1 where raised: "fitAll_step fit kw i nm s = Raise e s1"
      and same: "entries_added s s1 {}" by blast
    from raised have "?r = Raise e s1" by simp
    with same show ?thesis by (intro exI [of _ 0]) simp
  next
    assume recorded: "entries_added s (flow_state (fitAll_step fit kw i nm s)) {nm}"
    show ?thesis
    proof (cases "fitAll_step fit kw i nm s")
      case (Raise e s1)
      then have "?r = Raise e s1" by simp
      with recorded Raise show ?thesis by (intro exI [of _ 1]) simp
    next
      case (Return s1)
      then have "?r = Return s1" by simp
      with recorded Return show ?thesis by (intro exI [of _ 1]) simp
    next
      case (Continue s1)
      then have r: "?r = fitAll_loop fit kw (Suc i) rest s1" by simp
      from recorded Continue have first: "entries_added s s1 {nm}" by simp
      from Cons.IH [where i = "Suc i" and s = s1] obtain k where
        k: "k \<le> length rest"
        and added: "entries_added s1 (flow_state (fitAll_loop fit kw (Suc i) rest s1)) (set (take k rest))"
        and cont: "(\<exists>t. fitAll_loop fit kw (Suc i) rest s1 = Continue t) \<longrightarrow> k = length rest"
        and ret: "(\<exists>t. fitAll_loop fit kw (Suc i) rest s1 = Return t) \<longrightarrow>
            0 < k \<and>
            (\<exists>s2. fitAll_loop fit kw (Suc i) (take (k - 1) rest) s1 = Continue s2 \<and>
                  fitAll_step fit kw (Suc i + (k - 1)) (rest ! (k - 1)) s2 =
                    fitAll_loop fit kw (Suc i) rest s1)"
        by blast
      have 1: "Suc k \<le> length (nm # rest)" using k by simp
      have 2: "entries_added s (flow_state ?r) (set (take (Suc k) (nm # rest)))"
        using entries_added_trans [OF first added] r by simp
      have 3: "(\<exists>t. ?r = Continue t) \<longrightarrow> Suc k = length (nm # rest)"
        using cont r by simp
      have 4: "(\<exists>t. ?r = Return t) \<longrightarrow>
          0 < Suc k \<and>
          (\<exists>s2. fitAll_loop fit kw i (take (Suc k - 1) (nm # rest)) s = Continue s2 \<and>
                fitAll_step fit kw (i + (Suc k - 1)) ((nm # rest) ! (Suc k - 1)) s2 = ?r)"
      proof
        assume "\<exists>t. ?r = Return t"
        with ret r obtain s2 where pos: "0 < k"
          and s2: "fitAll_loop fit kw (Suc i) (take (k - 1) rest) s1 = Continue s2"
          "fitAll_step fit kw (Suc i + (k - 1)) (rest ! (k - 1)) s2 =
             fitAll_loop fit kw (Suc i) rest s1"
          by auto
        from pos obtain j where j: "k = Suc j" by (cases k) auto
        have "fitAll_loop fit kw i (take (Suc k - 1) (nm # rest)) s = Continue s2"
          using s2(1) Continue j by simp
        moreover have "fitAll_step fit kw (i + (Suc k - 1)) ((nm # rest) ! (Suc k - 1)) s2 = ?r"
          using s2(2) r j by simp
        ultimately show "0 < Suc k \<and>
          (\<exists>s2. fitAll_loop fit kw i (take (Suc k - 1) (nm # rest)) s = Continue s2 \<and>
                fitAll_step fit kw (i + (Suc k - 1)) ((nm # rest) ! (Suc k - 1)) s2 = ?r)"
          by blast
      qed
      from 1 2 3 4 show ?thesis by (intro exI [of _ "Suc k"]) blast
    qed
  qed
qed

lemma outcome_state_fitAll_dicts:
  "costDict (outcome_state (fitAll fit kw s)) =
     costDict (flow_state (fitAll_loop fit kw 0 (fittingModelNames s) s))"
  "penaltyDict (outcome_state (fitAll fit kw s)) =
     penaltyDict (flow_state (fitAll_loop fit kw 0 (fittingModelNames s) s))"
  "logLikelihoodDict (outcome_state (fitAll fit kw s)) =
     logLikelihoodDict (flow_state (fitAll_loop fit kw 0 (fittingModelNames s) s))"
  by (simp_all add: fitAll_def split: flow.splits)

lemma fitAll_loop_last_recorded:
  assumes "fitAll_loop fit kw i (pre @ [nm]) s = Continue s1"
  shows "nm \<in> dom (costDict s1) \<and> nm \<in> dom (penaltyDict s1) \<and> nm \<in> dom (logLikelihoodDict s1)"
proof -
  from assms obtain s0 where "fitAll_step fit kw (i + length pre) nm s0 = Continue s1"
    by (auto simp: fitAll_loop_append split: flow.splits)
  then have "fitAll_step fit kw (i + length pre) nm s0 = Return s1 \<or>
      fitAll_step fit kw (i + length pre) nm s0 = Continue s1" by simp
  from fitAll_step_not_Raise_recorded [OF this] show ?thesis by auto
qed

lemma example_fitConditions_b:
  "fitConditions cached_fit () (Suc (Suc 0)) ''b'' 0 0 (fittingProblemList example_recorded_a)
     = Returned (3, 2) (fittingProblemList example_recorded_a)"
  by (simp add: example_recorded_a_def example_aggregator_def example_problem_def cached_fit_def)

lemma example_step_b:
  "fitAll_step cached_fit () (Suc 0) ''b'' example_recorded_a = Return example_stopped"
  apply (simp add: fitAll_step_def example_fitConditions_b Let_def)
  apply (simp add: example_aggregator_def example_recorded_a_def example_stopped_def
      record_totals_def stoppingCheck_def window_def orderedLs_def map_filter_def
      example_problem_def slice_from_def Let_def fun_upd_twist)
  done

lemma example_fitAll:
  "fitAll cached_fit () example_aggregator = Returned () example_stopped"
proof -
  have "fittingModelNames example_aggregator = [''a'', ''b'', ''c'']"
    by (simp add: example_aggregator_def)
  then show ?thesis
    by (simp add: fitAll_def example_step_a example_step_b)
qed

lemma example_loop_a:
  "fitAll_loop cached_fit () 0 ([] @ [''a'']) example_aggregator = Continue example_recorded_a"
  by (simp add: example_step_a)

section \<open>What a run of the sweep leaves in the dictionaries\<close>

text \<open>
  Claim C9. Let the names of the aggregator be pairwise distinct and let \<open>s'\<close> be the
  aggregator after \<open>fitAll\<close>, whether it returned or raised. Then there is a \<open>k\<close> such that
  the keys added to the cost, penalty and log-likelihood dictionaries are exactly the
  first \<open>k\<close> names (from empty dictionaries: the keys are exactly the first \<open>k\<close> names);
  \<open>k\<close> is the number of names when the loop ran to its end, and when the loop returned
  early, the step that returned is the one for the \<open>k\<close>-th name, which is therefore among
  the keys. Moreover the entries a name has after its own step are the entries it has in
  \<open>s'\<close>: no later step removes or overwrites them.
\<close>

theorem fitAll_records_prefix:
  assumes "distinct (fittingModelNames s)"
    and "s' = outcome_state (fitAll fit kwargs s)"
    and "names = fittingModelNames s"
  shows "(\<exists>k\<le>length names.
           dom (costDict s') = dom (costDict s) \<union> set (take k names) \<and>
           dom (penaltyDict s') = dom (penaltyDict s) \<union> set (take k names) \<and>
           dom (logLikelihoodDict s') = dom (logLikelihoodDict s) \<union> set (take k names) \<and>
           ((\<exists>t. fitAll_loop fit kwargs 0 names s = Continue t) \<longrightarrow> k = length names) \<and>
           ((\<exists>t. fitAll_loop fit kwargs 0 names s = Return t) \<longrightarrow>
              0 < k \<and>
              (\<exists>s1. fitAll_loop fit kwargs 0 (take (k - 1) names) s = Continue s1 \<and>
                    fitAll_step fit kwargs (k - 1) (names ! (k - 1)) s1 = Return s'))) \<and>
         (\<forall>pre nm post s1.
            names = pre @ nm # post \<and> fitAll_loop fit kwargs 0 (pre @ [nm]) s = Continue s1 \<longrightarrow>
              nm \<in> dom (costDict s1) \<and> nm \<in> dom (penaltyDict s1) \<and>
              nm \<in> dom (logLikelihoodDict s1) \<and>
              costDict s' nm = costDict s1 nm \<and> penaltyDict s' nm = penaltyDict s1 nm \<and>
              logLikelihoodDict s' nm = logLikelihoodDict s1 nm)"
proof (intro conjI allI impI)
  let ?r = "fitAll_loop fit kwargs 0 names s"
  have dicts: "costDict s' = costDict (flow_state ?r)" "penaltyDict s' = penaltyDict (flow_state ?r)"
    "logLikelihoodDict s' = logLikelihoodDict (flow_state ?r)"
    using assms(2,3) by (simp_all add: outcome_state_fitAll_dicts)
  from fitAll_loop_prefix [of names s fit kwargs 0] obtain k where
    k: "k \<le> length names"
    and added: "entries_added s (flow_state ?r) (set (take k names))"
    and cont: "(\<exists>t. ?r = Continue t) \<longrightarrow> k = length names"
    and ret: "(\<exists>t. ?r = Return t) \<longrightarrow>
        0 < k \<and>
        (\<exists>s1. fitAll_loop fit kwargs 0 (take (k - 1) names) s = Continue s1 \<and>
              fitAll_step fit kwargs (0 + (k - 1)) (names ! (k - 1)) s1 = ?r)"
    by blast
  have ret': "(\<exists>t. ?r = Return t) \<longrightarrow>
        0 < k \<and>
        (\<exists>s1. fitAll_loop fit kwargs 0 (take (k - 1) names) s = Continue s1 \<and>
              fitAll_step fit kwargs (k - 1) (names ! (k - 1)) s1 = Return s')"
  proof
    assume "\<exists>t. ?r = Return t"
    then obtain t where t: "?r = Return t" by blast
    then have "s' = t" using assms(2,3) by (simp add: fitAll_def)
    with ret t show "0 < k \<and>
        (\<exists>s1. fitAll_loop fit kwargs 0 (take (k - 1) names) s = Continue s1 \<and>
              fitAll_step fit kwargs (k - 1) (names ! (k - 1)) s1 = Return s')"
      by auto
  qed
  from k added cont ret' dicts
  show "\<exists>k\<le>length names.
           dom (costDict s') = dom (costDict s) \<union> set (take k names) \<and>
           dom (penaltyDict s') = dom (penaltyDict s) \<union> set (take k names) \<and>
           dom (logLikelihoodDict s') = dom (logLikelihoodDict s) \<union> set (take k names) \<and>
           ((\<exists>t. fitAll_loop fit kwargs 0 names s = Continue t) \<longrightarrow> k = length names) \<and>
           ((\<exists>t. fitAll_loop fit kwargs 0 names s = Return t) \<longrightarrow>
              0 < k \<and>
              (\<exists>s1. fitAll_loop fit kwargs 0 (take (k - 1) names) s = Continue s1 \<and>
                    fitAll_step fit kwargs (k - 1) (names ! (k - 1)) s1 = Return s'))"
    unfolding entries_added_def by (intro exI [of _ k]) simp
next
  fix pre nm post s1
  assume a: "names = pre @ nm # post \<and> fitAll_loop fit kwargs 0 (pre @ [nm]) s = Continue s1"
  then have names: "names = (pre @ [nm]) @ post" and reach: "fitAll_loop fit kwargs 0 (pre @ [nm]) s = Continue s1"
    by simp_all
  from fitAll_loop_last_recorded [OF reach]
  have in_dom: "nm \<in> dom (costDict s1) \<and> nm \<in> dom (penaltyDict s1) \<and> nm \<in> dom (logLikelihoodDict s1)" .
  have loop: "fitAll_loop fit kwargs 0 names s = fitAll_loop fit kwargs (0 + length (pre @ [nm])) post s1"
    unfolding names by (subst fitAll_loop_append) (simp only: reach flow.case)
  from assms(1,3) a have "distinct (pre @ nm # post)" by simp
  then have "nm \<notin> set post" by simp
  from fitAll_loop_other_keys [OF this, of fit kwargs "0 + length (pre @ [nm])" s1] loop
  have kept: "costDict (flow_state (fitAll_loop fit kwargs 0 names s)) nm = costDict s1 nm \<and>
         penaltyDict (flow_state (fitAll_loop fit kwargs 0 names s)) nm = penaltyDict s1 nm \<and>
         logLikelihoodDict (flow_state (fitAll_loop fit kwargs 0 names s)) nm = logLikelihoodDict s1 nm"
    by simp
  have dicts: "costDict s' = costDict (flow_state (fitAll_loop fit kwargs 0 names s))"
    "penaltyDict s' = penaltyDict (flow_state (fitAll_loop fit kwargs 0 names s))"
    "logLikelihoodDict s' = logLikelihoodDict (flow_state (fitAll_loop fit kwargs 0 names s))"
    using assms(2,3) by (simp_all add: outcome_state_fitAll_dicts)
  from in_dom show "nm \<in> dom (costDict s1)" by simp
  from in_dom show "nm \<in> dom (penaltyDict s1)" by simp
  from in_dom show "nm \<in> dom (logLikelihoodDict s1)" by simp
  from kept dicts show "costDict s' nm = costDict s1 nm" by simp
  from kept dicts show "penaltyDict s' nm = penaltyDict s1 nm" by simp
  from kept dicts show "logLikelihoodDict s' nm = logLikelihoodDict s1 nm" by simp
qed

theorem fitAll_records_prefix_witness:
  "distinct (fittingModelNames example_aggregator) \<and>
   fitAll cached_fit () example_aggregator = Returned () example_stopped \<and>
   (\<exists>k\<le>3. dom (costDict example_stopped) = set (take k [''a'', ''b'', ''c'']) \<and>
      dom (penaltyDict example_stopped) = set (take k [''a'', ''b'', ''c'']) \<and>
      dom (logLikelihoodDict example_stopped) = set (take k [''a'', ''b'', ''c''])) \<and>
   costDict example_stopped ''a'' = costDict example_recorded_a ''a'' \<and>
   logLikelihoodDict example_stopped ''a'' = logLikelihoodDict example_recorded_a ''a''"
proof -
  have names: "fittingModelNames example_aggregator = [''a'', ''b'', ''c'']"
    and empty: "dom (costDict example_aggregator) = {}" "dom (penaltyDict example_aggregator) = {}"
      "dom (logLikelihoodDict example_aggregator) = {}"
    by (simp_all add: example_aggregator_def)
  have d: "distinct (fittingModelNames example_aggregator)"
    by (simp add: names)
  have s': "example_stopped = outcome_state (fitAll cached_fit () example_aggregator)"
    by (simp add: example_fitAll)
  note inst = fitAll_records_prefix [OF d s' names [symmetric]]
  from inst [THEN conjunct1] obtain k where
    k: "k \<le> length [''a'', ''b'', ''c'']"
    "dom (costDict example_stopped) =
       dom (costDict example_aggregator) \<union> set (take k [''a'', ''b'', ''c''])"
    "dom (penaltyDict example_stopped) =
       dom (penaltyDict example_aggregator) \<union> set (take k [''a'', ''b'', ''c''])"
    "dom (logLikelihoodDict example_stopped) =
       dom (logLikelihoodDict example_aggregator) \<union> set (take k [''a'', ''b'', ''c''])"
    by blast
  then have "\<exists>k\<le>3. dom (costDict example_stopped) = set (take k [''a'', ''b'', ''c'']) \<and>
      dom (penaltyDict example_stopped) = set (take k [''a'', ''b'', ''c'']) \<and>
      dom (logLikelihoodDict example_stopped) = set (take k [''a'', ''b'', ''c''])"
    unfolding empty by (intro exI [of _ k]) simp
  moreover have "[''a'', ''b'', ''c''] = [] @ ''a'' # [''b'', ''c''] \<and>
      fitAll_loop cached_fit () 0 ([] @ [''a'']) example_aggregator = Continue example_recorded_a"
    using example_loop_a by simp
  with inst [THEN conjunct2]
  have "costDict example_stopped ''a'' = costDict example_recorded_a ''a'' \<and>
        logLikelihoodDict example_stopped ''a'' = logLikelihoodDict example_recorded_a ''a''"
    by blast
  ultimately show ?thesis using d example_fitAll by simp
qed

section \<open>The stopping rule\<close>

lemma slice_from_zero: "slice_from 0 xs = xs"
  by (simp add: slice_from_def)

lemma slice_from_last:
  "0 < w \<Longrightarrow> w < int (length xs) \<Longrightarrow> slice_from (- w) xs = drop (length xs - nat w) xs"
  by (simp add: slice_from_def Let_def nat_diff_distrib')


lemma stoppingCheck_Return_done:
  "stoppingCheck s = Return s' \<Longrightarrow> s' = s\<lparr>stopFittingN := Some (window s), fitAllDone := True\<rparr>"
  by (auto simp: stoppingCheck_def Let_def split: if_splits sum.splits)

lemma stoppingCheck_Return_iff:
  fixes s :: "('v::linorder, 'm, 'p) FittingProblemMultipleCondition"
  assumes "0 \<le> window s"
    and "ls = orderedLs (fittingModelNames s) (logLikelihoodDict s)"
    and "W = nat (window s)"
  shows "(\<exists>s'. stoppingCheck s = Return s') \<longleftrightarrow>
         0 < W \<and> W < length ls \<and> Max (set (drop (length ls - W) ls)) < Max (set ls)"
proof -
  let ?s1 = "s\<lparr>stopFittingN := Some (window s)\<rparr>"
  have sc: "stoppingCheck s =
      (if int (length ls) > window s then
         (case py_max (slice_from (- window s) ls) of
            Inl e \<Rightarrow> Raise e ?s1
          | Inr a \<Rightarrow>
              (case py_max ls of
                 Inl e \<Rightarrow> Raise e ?s1
               | Inr b \<Rightarrow> if a < b then Return (?s1\<lparr>fitAllDone := True\<rparr>) else Continue ?s1))
       else Continue ?s1)"
    unfolding assms(2) by (simp add: stoppingCheck_def Let_def cong: sum.case_cong)
  show ?thesis
  proof (cases "int (length ls) > window s")
    case False
    with sc have "stoppingCheck s = Continue ?s1" by simp
    moreover from False assms(1,3) have "\<not> W < length ls" by simp
    ultimately show ?thesis by simp
  next
    case True
    with assms(1) have ne: "ls \<noteq> []" by auto
    show ?thesis
    proof (cases "window s = 0")
      case True
      with sc have "stoppingCheck s = Continue ?s1"
        by (simp add: slice_from_zero py_max_linorder [OF ne])
      moreover from True assms(3) have "\<not> 0 < W" by simp
      ultimately show ?thesis by simp
    next
      case False
      with assms(1) have pos: "0 < window s" by simp
      have sl: "slice_from (- window s) ls = drop (length ls - W) ls"
        using slice_from_last [OF pos \<open>window s < int (length ls)\<close>] assms(3) by simp
      from pos \<open>window s < int (length ls)\<close> assms(3) have W: "0 < W" "W < length ls" by simp_all
      then have ne': "drop (length ls - W) ls \<noteq> []" by simp
      have "stoppingCheck s =
          (if Max (set (drop (length ls - W) ls)) < Max (set ls)
           then Return (?s1\<lparr>fitAllDone := True\<rparr>) else Continue ?s1)"
        using \<open>window s < int (length ls)\<close>
        by (simp add: sc sl py_max_linorder [OF ne] py_max_linorder [OF ne'])
      with W show ?thesis by simp
    qed
  qed
qed

text \<open>
  Claim C1. Let the stopping window be non-negative and the log-likelihoods linearly
  ordered, and let \<open>ls\<close> be the recorded log-likelihoods in sweep order after a sweep
  step, \<open>W\<close> the window. If the step executes the early \<open>return\<close>, then more than \<open>W\<close>
  names have a recorded log-likelihood, the maximum of the last \<open>W\<close> entries of \<open>ls\<close> is
  strictly less than the maximum of \<open>ls\<close> (so a tie does not stop the sweep), the flag
  \<open>fitAllDone\<close> is set, and the loop ends with the state of this step whatever names
  follow: no later name is fitted. If the step goes on to the next name, the condition
  does not hold: the rule fires at the first step at which it holds.
\<close>

theorem stopping_rule:
  fixes s :: "('v::{zero,plus,uminus,linorder}, 'm, 'p) FittingProblemMultipleCondition"
  assumes "0 \<le> window s"
    and "s' = flow_state (fitAll_step fit kwargs i nm s)"
    and "ls = orderedLs (fittingModelNames s') (logLikelihoodDict s')"
    and "W = nat (window s')"
  shows "(fitAll_step fit kwargs i nm s = Return s' \<longrightarrow>
            0 < W \<and> W < length ls \<and>
            Max (set (drop (length ls - W) ls)) < Max (set ls) \<and>
            fitAllDone s' \<and>
            (\<forall>rest. fitAll_loop fit kwargs i (nm # rest) s = Return s')) \<and>
         (fitAll_step fit kwargs i nm s = Continue s' \<longrightarrow>
            \<not> (0 < W \<and> W < length ls \<and>
               Max (set (drop (length ls - W) ls)) < Max (set ls)))"
proof (cases rule: fitAll_step_cases [of fit kwargs i nm s])
  case (fit_raised e fps')
  then show ?thesis by simp
next
  case (no_problem c p)
  then show ?thesis by simp
next
  case (checked c p f fs)
  let ?t = "(record_totals nm c p (s\<lparr>fittingProblemList := f # fs\<rparr>))
              \<lparr>numParametersDict := numParametersDict f\<rparr>"
  have step: "fitAll_step fit kwargs i nm s = stoppingCheck ?t" by (rule checked(2))
  have wt: "window ?t = window s" by (simp add: window_updates)
  with assms(1) have nonneg: "0 \<le> window ?t" by simp
  have ls: "ls = orderedLs (fittingModelNames ?t) (logLikelihoodDict ?t)"
    unfolding assms(3) assms(2) step by (simp only: stoppingCheck_fields)
  have W: "W = nat (window ?t)"
    unfolding assms(4) assms(2) step by (simp only: stoppingCheck_fields)
  note iff = stoppingCheck_Return_iff [OF nonneg ls W]
  show ?thesis
  proof (intro conjI impI)
    assume r: "fitAll_step fit kwargs i nm s = Return s'"
    with step have "stoppingCheck ?t = Return s'" by simp
    then have "\<exists>u. stoppingCheck ?t = Return u" by blast
    with iff show "0 < W" "W < length ls" "Max (set (drop (length ls - W) ls)) < Max (set ls)"
      by simp_all
    from r step have "stoppingCheck ?t = Return s'" by simp
    from stoppingCheck_Return_done [OF this] show "fitAllDone s'" by simp
    from r show "\<forall>rest. fitAll_loop fit kwargs i (nm # rest) s = Return s'" by simp
  next
    assume "fitAll_step fit kwargs i nm s = Continue s'"
    with step have "stoppingCheck ?t = Continue s'" by simp
    then have "\<not> (\<exists>u. stoppingCheck ?t = Return u)" by simp
    with iff show "\<not> (0 < W \<and> W < length ls \<and>
               Max (set (drop (length ls - W) ls)) < Max (set ls))" by simp
  qed
qed

theorem stopping_rule_witness:
  "0 \<le> window example_recorded_a \<and>
   fitAll_step cached_fit () (Suc 0) ''b'' example_recorded_a = Return example_stopped \<and>
   orderedLs (fittingModelNames example_stopped) (logLikelihoodDict example_stopped) = [- 4, - 5] \<and>
   nat (window example_stopped) = 1 \<and>
   Max (set (drop (length [- 4, - 5 :: int] - 1) [- 4, - 5])) < Max (set [- 4, - 5 :: int]) \<and>
   fitAllDone example_stopped \<and>
   fitAll_loop cached_fit () (Suc 0) [''b'', ''c''] example_recorded_a = Return example_stopped"
proof -
  have w: "0 \<le> window example_recorded_a"
    by (simp add: window_def example_recorded_a_def example_aggregator_def)
  have s': "example_stopped = flow_state (fitAll_step cached_fit () (Suc 0) ''b'' example_recorded_a)"
    by (simp add: example_step_b)
  have ls: "[- 4, - 5] =
      orderedLs (fittingModelNames example_stopped) (logLikelihoodDict example_stopped)"
    by (simp add: orderedLs_def map_filter_def example_stopped_def example_aggregator_def)
  have W: "1 = nat (window example_stopped)"
    by (simp add: window_def example_stopped_def example_aggregator_def)
  from stopping_rule [OF w s' ls W] example_step_b w ls [symmetric] W [symmetric]
  show ?thesis by simp
qed

section \<open>Candidate lists no longer than the window\<close>







section \<open>A failing single-condition fit\<close>

lemma example_failing_step_a:
  "fitAll_loop failing_fit () 0 [''a''] example_aggregator = Continue example_recorded_a"
proof -
  have "fitConditions failing_fit () (Suc 0) ''a'' 0 0 (fittingProblemList example_aggregator)
     = Returned (2, 2) (fittingProblemList example_aggregator)"
    by (simp add: example_aggregator_def example_problem_def failing_fit_def)
  then have "fitAll_step failing_fit () 0 ''a'' example_aggregator = Continue example_recorded_a"
    apply (simp add: fitAll_step_def Let_def)
    apply (simp add: example_aggregator_def example_recorded_a_def record_totals_def
        stoppingCheck_def window_def orderedLs_def map_filter_def example_problem_def Let_def)
    done
  then show ?thesis by simp
qed

text \<open>
  Claim C3. Let the sweep have reached the step for the name \<open>nm\<close> in the state \<open>s\<close>, and
  let the single-condition fit of some condition raise in that step. Then \<open>fitAll\<close> raises,
  and the cost, penalty and log-likelihood dictionaries of the aggregator are those of
  \<open>s\<close>: nothing is recorded for \<open>nm\<close> in this step. So an entry that a step records
  means that every condition's fit in that step succeeded. The error that \<open>fitAll\<close> raises
  is the error of the fit when all conditions before it were fitted and had a cost and a
  penalty for the name.
\<close>

theorem failed_fit_records_nothing:
  assumes "fittingModelNames s0 = pre @ nm # rest"
    and "fitAll_loop fit kwargs 0 pre s0 = Continue s"
    and "f \<in> set (fittingProblemList s)"
    and "fit kwargs (Suc (length pre)) f = Raised e f'"
  shows "\<exists>e' s'. fitAll fit kwargs s0 = Raised e' s' \<and>
           costDict s' = costDict s \<and> penaltyDict s' = penaltyDict s \<and>
           logLikelihoodDict s' = logLikelihoodDict s \<and>
           (\<forall>done todo.
              fittingProblemList s = done @ f # todo \<and>
              (\<forall>g\<in>set done. \<exists>g' a b. fit kwargs (Suc (length pre)) g = Returned () g' \<and>
                 costDict g' nm = Some a \<and> penaltyDict g' nm = Some b) \<longrightarrow> e' = e)"
proof -
  let ?n = "Suc (length pre)"
  from assms(3,4) have "\<exists>f\<in>set (fittingProblemList s). \<exists>e f'. fit kwargs ?n f = Raised e f'"
    by blast
  from fitConditions_Raised_any [where fit = fit and kw = kwargs and n = ?n
      and fps = "fittingProblemList s" and nm = nm and c = 0 and p = 0, OF this]
  obtain e' fps' where
    fc: "fitConditions fit kwargs ?n nm 0 0 (fittingProblemList s) = Raised e' fps'" by blast
  then have step: "fitAll_step fit kwargs (length pre) nm s = Raise e' (s\<lparr>fittingProblemList := fps'\<rparr>)"
    by (rule fitAll_step_Raised)
  have "fitAll_loop fit kwargs 0 (pre @ nm # rest) s0 = Raise e' (s\<lparr>fittingProblemList := fps'\<rparr>)"
    by (subst fitAll_loop_append) (simp add: assms(2) step)
  then have run: "fitAll fit kwargs s0 = Raised e' (s\<lparr>fittingProblemList := fps'\<rparr>)"
    by (simp add: fitAll_def assms(1))
  have first: "e' = e" if "fittingProblemList s = done @ f # todo"
    and "\<forall>g\<in>set done. \<exists>g' a b. fit kwargs ?n g = Returned () g' \<and>
           costDict g' nm = Some a \<and> penaltyDict g' nm = Some b" for "done" todo
  proof -
    from fitConditions_Raised_first [where fit = fit and kw = kwargs and n = ?n and nm = nm
        and c = 0 and p = 0 and todo = todo and f = f, OF that(2) assms(4)] that(1) fc
    show ?thesis by auto
  qed
  from run first show ?thesis by (intro exI [of _ e'] exI [of _ "s\<lparr>fittingProblemList := fps'\<rparr>"]) auto
qed

theorem failed_fit_records_nothing_witness:
  "fittingModelNames example_aggregator = [''a''] @ ''b'' # [''c''] \<and>
   fitAll_loop failing_fit () 0 [''a''] example_aggregator = Continue example_recorded_a \<and>
   example_problem 1 2 10 \<in> set (fittingProblemList example_recorded_a) \<and>
   failing_fit () (Suc (length [''a''])) (example_problem 1 2 10) =
     Raised (Exception ''fit failed'') (example_problem 1 2 10) \<and>
   (\<exists>s'. fitAll failing_fit () example_aggregator = Raised (Exception ''fit failed'') s' \<and>
      costDict s' = costDict example_recorded_a \<and>
      penaltyDict s' = penaltyDict example_recorded_a \<and>
      logLikelihoodDict s' = logLikelihoodDict example_recorded_a \<and>
      ''b'' \<notin> dom (costDict s'))"
proof -
  have names: "fittingModelNames example_aggregator = [''a''] @ ''b'' # [''c'']"
    by (simp add: example_aggregator_def)
  have fps: "fittingProblemList example_recorded_a = [] @ example_problem 1 2 10 # [example_problem 1 1 20]"
    by (simp add: example_recorded_a_def example_aggregator_def)
  then have mem: "example_problem 1 2 10 \<in> set (fittingProblemList example_recorded_a)"
    by simp
  have fails: "failing_fit () (Suc (length [''a''])) (example_problem 1 2 10) =
     Raised (Exception ''fit failed'') (example_problem 1 2 10)"
    by (simp add: failing_fit_def)
  from failed_fit_records_nothing [OF names example_failing_step_a mem fails]
  obtain e' s' where run: "fitAll failing_fit () example_aggregator = Raised e' s'"
    and same: "costDict s' = costDict example_recorded_a" "penaltyDict s' = penaltyDict example_recorded_a"
      "logLikelihoodDict s' = logLikelihoodDict example_recorded_a"
    and first: "\<forall>done todo.
              fittingProblemList example_recorded_a = done @ example_problem 1 2 10 # todo \<and>
              (\<forall>g\<in>set done. \<exists>g' a b. failing_fit () (Suc (length [''a''])) g = Returned () g' \<and>
                 costDict g' ''b'' = Some a \<and> penaltyDict g' ''b'' = Some b) \<longrightarrow>
              e' = Exception ''fit failed''"
    by blast
  from first [rule_format, of "[]" "[example_problem 1 1 20]"] fps
  have e': "e' = Exception ''fit failed''" by simp
  have "''b'' \<notin> dom (costDict s')"
    unfolding same by (simp add: example_recorded_a_def)
  with run e' same have "\<exists>s'. fitAll failing_fit () example_aggregator = Raised (Exception ''fit failed'') s' \<and>
      costDict s' = costDict example_recorded_a \<and>
      penaltyDict s' = penaltyDict example_recorded_a \<and>
      logLikelihoodDict s' = logLikelihoodDict example_recorded_a \<and>
      ''b'' \<notin> dom (costDict s')"
    by (intro exI [of _ s']) simp
  with names example_failing_step_a mem fails show ?thesis by (intro conjI)
qed

section \<open>Construction\<close>

lemma comprehension_zip_Inr:
  assumes "\<forall>i<min (length xs) (length ys). \<exists>b. c (xs ! i) (ys ! i) = Inr b"
  shows "\<exists>bs. comprehension (\<lambda>(x, y). c x y) (zip xs ys) = Inr bs \<and>
              length bs = min (length xs) (length ys) \<and>
              (\<forall>i<min (length xs) (length ys). c (xs ! i) (ys ! i) = Inr (bs ! i))"
proof -
  have all: "\<forall>z\<in>set (zip xs ys). \<exists>b. (\<lambda>(x, y). c x y) z = Inr b"
    using assms by (auto simp: set_zip)
  have gen: "\<exists>bs. comprehension g zs = Inr bs" if "\<forall>z\<in>set zs. \<exists>b. g z = Inr b" for g :: "'a \<times> 'b \<Rightarrow> error + 'c" and zs
    using that by (induction zs) auto
  from gen [OF all] obtain bs where bs: "comprehension (\<lambda>(x, y). c x y) (zip xs ys) = Inr bs"
    by blast
  from comprehension_Inr_length [OF bs] have len: "length bs = min (length xs) (length ys)"
    by simp
  from comprehension_Inr_map [OF bs] have m: "map (\<lambda>(x, y). c x y) (zip xs ys) = map Inr bs" .
  have "c (xs ! i) (ys ! i) = Inr (bs ! i)" if "i < min (length xs) (length ys)" for i
  proof -
    from that have "c (xs ! i) (ys ! i) = map (\<lambda>(x, y). c x y) (zip xs ys) ! i" by simp
    also have "\<dots> = map Inr bs ! i" by (simp only: m)
    also from that len have "\<dots> = Inr (bs ! i)" by simp
    finally show ?thesis .
  qed
  with bs len show ?thesis by blast
qed

lemma PowerLaw_init_init:
  "PowerLaw_init (\<lambda>c d. mk d c) p l ds ips sf sk kw = init mk p ds l ips sf sk kw"
  by (simp add: PowerLaw_init_def init_def)

lemma CTSN_init_init:
  "CTSN_init (\<lambda>c d. mk d c) p l ds ips sf sk kw = init mk p ds l ips sf sk kw"
  by (simp add: CTSN_init_def init_def)

text \<open>
  Claim C4, as the code has it. The claim states that a mismatch of the two lengths raises
  no error. Pairing three datasets with an empty sequence of parameter lists builds no
  single-condition problem, and the setup that follows raises \<open>IndexError\<close> on
  \<open>fittingProblemList[0]\<close>.
\<close>

theorem init_empty_pairing_raises:
  "init example_mk 0 [1, 2, 3] () (Some []) None (- 1) () = Inl IndexError"
  by (simp add: init_def pairConditions_def generalSetup_def)

lemma init_pairs_positive:
  assumes "ips' = (case ips of None \<Rightarrow> map (\<lambda>fd. [[]]) ds | Some l \<Rightarrow> l)"
    and "n = min (length ds) (length ips')"
    and "\<forall>i<n. \<exists>fp. mk (ds ! i) models (ips' ! i) kwargs = Inr fp"
    and "0 < n"
    and "\<forall>fp. mk (ds ! 0) models (ips' ! 0) kwargs = Inr fp \<longrightarrow> stopFittingN fp \<noteq> None"
  shows "(\<exists>a. init mk p ds models ips sf sk kwargs = Inr a \<and>
            length (fittingProblemList a) = n \<and>
            (\<forall>i<n. mk (ds ! i) models (ips' ! i) kwargs = Inr (fittingProblemList a ! i)))"
proof -
  have pairs: "pairConditions ds ips = zip ds ips'"
    by (simp add: pairConditions_def assms(1))
  from comprehension_zip_Inr [of ds ips' "\<lambda>d ip. mk d models ip kwargs"] assms(2,3)
  obtain fps where fps: "comprehension (\<lambda>(d, ip). mk d models ip kwargs) (zip ds ips') = Inr fps"
    and len: "length fps = n"
    and nth: "\<forall>i<n. mk (ds ! i) models (ips' ! i) kwargs = Inr (fps ! i)"
    by auto
  from len assms(4) obtain f fs where cons: "fps = f # fs" by (cases fps) auto
  with nth assms(4) have "mk (ds ! 0) models (ips' ! 0) kwargs = Inr f" by auto
  with assms(5) obtain w where w: "stopFittingN f = Some w" by auto
  from fps cons w obtain a where a: "init mk p ds models ips sf sk kwargs = Inr a"
    and list: "fittingProblemList a = fps"
    by (simp add: init_def pairs generalSetup_def)
  from a list len nth show ?thesis by simp
qed

lemma init_pairs_empty:
  assumes "ips' = (case ips of None \<Rightarrow> map (\<lambda>fd. [[]]) ds | Some l \<Rightarrow> l)"
    and "min (length ds) (length ips') = 0"
  shows "init mk p ds models ips sf sk kwargs = Inl IndexError"
proof -
  have pairs: "pairConditions ds ips = zip ds ips'"
    by (simp add: pairConditions_def assms(1))
  from assms(2) have "length (zip ds ips') = 0" by simp
  then have z: "zip ds ips' = []" by (simp only: length_0_conv)
  show ?thesis unfolding init_def pairs z by (simp add: generalSetup_def)
qed

text \<open>
  Claim C4, amended. Let \<open>n\<close> be the smaller of the number of datasets and the number of
  parameter lists (an omitted sequence of parameter lists counts as one \<open>[[]]\<close> per
  dataset). When \<open>n\<close> is positive, the constructor of the single-condition problem
  succeeds on the first \<open>n\<close> pairs and the first problem has a \<open>stopFittingN\<close>, construction
  succeeds with exactly \<open>n\<close> single-condition problems, the \<open>i\<close>-th built from the \<open>i\<close>-th
  dataset and the \<open>i\<close>-th parameter list; datasets or parameter lists beyond \<open>n\<close> are
  ignored without an error. When \<open>n\<close> is zero, whatever the constructor and the longer
  sequence are, no single-condition problem is built and construction raises \<open>IndexError\<close>.
  The two specialised constructors behave as the base one does with their own
  single-condition constructor.
\<close>

theorem init_pairs_conditions:
  assumes "ips' = (case ips of None \<Rightarrow> map (\<lambda>fd. [[]]) ds | Some l \<Rightarrow> l)"
    and "n = min (length ds) (length ips')"
  shows "(0 < n \<and>
          (\<forall>i<n. \<exists>fp. mk (ds ! i) models (ips' ! i) kwargs = Inr fp) \<and>
          (\<forall>fp. mk (ds ! 0) models (ips' ! 0) kwargs = Inr fp \<longrightarrow> stopFittingN fp \<noteq> None) \<longrightarrow>
          (\<exists>a. init mk p ds models ips sf sk kwargs = Inr a \<and>
             length (fittingProblemList a) = n \<and>
             (\<forall>i<n. mk (ds ! i) models (ips' ! i) kwargs = Inr (fittingProblemList a ! i)))) \<and>
         (n = 0 \<longrightarrow> init mk p ds models ips sf sk kwargs = Inl IndexError) \<and>
         PowerLaw_init (\<lambda>c d. mk d c) p models ds ips sf sk kwargs =
           init mk p ds models ips sf sk kwargs \<and>
         CTSN_init (\<lambda>c d. mk d c) p models ds ips sf sk kwargs =
           init mk p ds models ips sf sk kwargs"
proof (intro conjI impI)
  assume a: "0 < n \<and>
          (\<forall>i<n. \<exists>fp. mk (ds ! i) models (ips' ! i) kwargs = Inr fp) \<and>
          (\<forall>fp. mk (ds ! 0) models (ips' ! 0) kwargs = Inr fp \<longrightarrow> stopFittingN fp \<noteq> None)"
  then have 3: "\<forall>i<n. \<exists>fp. mk (ds ! i) models (ips' ! i) kwargs = Inr fp"
    and 4: "0 < n"
    and 5: "\<forall>fp. mk (ds ! 0) models (ips' ! 0) kwargs = Inr fp \<longrightarrow> stopFittingN fp \<noteq> None"
    by simp_all
  show "\<exists>a. init mk p ds models ips sf sk kwargs = Inr a \<and>
             length (fittingProblemList a) = n \<and>
             (\<forall>i<n. mk (ds ! i) models (ips' ! i) kwargs = Inr (fittingProblemList a ! i))"
    by (rule init_pairs_positive [where mk = mk and ds = ds and models = models and ips = ips
          and ips' = ips' and n = n and kwargs = kwargs, OF assms(1,2) 3 4 5])
next
  assume "n = 0"
  with assms(2) have "min (length ds) (length ips') = 0" by simp
  from init_pairs_empty [OF assms(1) this]
  show "init mk p ds models ips sf sk kwargs = Inl IndexError" .
next
  show "PowerLaw_init (\<lambda>c d. mk d c) p models ds ips sf sk kwargs =
           init mk p ds models ips sf sk kwargs"
    by (rule PowerLaw_init_init)
next
  show "CTSN_init (\<lambda>c d. mk d c) p models ds ips sf sk kwargs =
           init mk p ds models ips sf sk kwargs"
    by (rule CTSN_init_init)
qed

theorem init_pairs_conditions_witness:
  "(\<exists>a. init example_mk 0 [1, 2, 3] () (Some [[[]], [[]]]) None (- 1) () = Inr a \<and>
      length (fittingProblemList a) = 2 \<and>
      fittingProblemList a = [example_problem 1 1 1, example_problem 2 1 2]) \<and>
   init example_mk 0 [] () None None (- 1) () = Inl IndexError"
proof -
  have 1: "[[[]], [[]]] = (case Some [[[]], [[]]] of None \<Rightarrow> map (\<lambda>fd. [[]]) [1, 2, 3 :: nat] | Some l \<Rightarrow> l)"
    by simp
  have 2: "2 = min (length [1, 2, 3 :: nat]) (length [[[]], [[] :: nat list]])" by simp
  have 3: "0 < (2 :: nat) \<and>
      (\<forall>i<2. \<exists>fp. example_mk ([1, 2, 3] ! i) () ([[[]], [[]]] ! i) () = Inr fp) \<and>
      (\<forall>fp. example_mk ([1, 2, 3] ! 0) () ([[[]], [[]]] ! 0) () = Inr fp \<longrightarrow> stopFittingN fp \<noteq> None)"
    by (auto simp: example_mk_def example_problem_def)
  from init_pairs_conditions [where mk = example_mk and ds = "[1, 2, 3]" and models = "()"
      and ips = "Some [[[]], [[]]]" and ips' = "[[[]], [[]]]" and n = 2 and kwargs = "()"
      and p = 0 and sf = None and sk = "- 1", OF 1 2, THEN conjunct1, rule_format, OF 3]
  obtain a where a: "init example_mk 0 [1, 2, 3] () (Some [[[]], [[]]]) None (- 1) () = Inr a"
    and len: "length (fittingProblemList a) = 2"
    and nth: "\<forall>i<2. example_mk ([1, 2, 3] ! i) () ([[[]], [[]]] ! i) () = Inr (fittingProblemList a ! i)"
    by blast
  from nth [rule_format, of 0] nth [rule_format, of 1]
  have "fittingProblemList a ! 0 = example_problem 1 1 1" "fittingProblemList a ! 1 = example_problem 2 1 2"
    by (simp_all add: example_mk_def)
  with len have "fittingProblemList a = [example_problem 1 1 1, example_problem 2 1 2]"
    by (cases "fittingProblemList a"; cases "tl (fittingProblemList a)") auto
  with a len have pos: "\<exists>a. init example_mk 0 [1, 2, 3] () (Some [[[]], [[]]]) None (- 1) () = Inr a \<and>
      length (fittingProblemList a) = 2 \<and>
      fittingProblemList a = [example_problem 1 1 1, example_problem 2 1 2]"
    by blast
  have 6: "[] = (case None of None \<Rightarrow> map (\<lambda>fd. [[]]) ([] :: nat list) | Some l \<Rightarrow> l)"
    by simp
  have 7: "0 = min (length ([] :: nat list)) (length ([] :: nat list list list))" by simp
  from init_pairs_conditions [where mk = example_mk and ds = "[]" and models = "()"
      and ips = None and ips' = "[]" and n = 0 and kwargs = "()"
      and p = 0 and sf = None and sk = "- 1", OF 6 7, THEN conjunct2, THEN conjunct1]
  have zero: "init example_mk 0 [] () None None (- 1) () = Inl IndexError" by simp
  from pos zero show ?thesis by (rule conjI)
qed

section \<open>The stopping window at setup\<close>

text \<open>
  Claim C5, as the code has it. The claim states that setup succeeds with a window of 3 when
  the first single-condition problem has no \<open>stopFittingN\<close>. Setup reads the attribute
  unguarded and raises \<open>AttributeError\<close>.
\<close>

theorem setup_without_window_raises:
  "generalSetup 0 [(example_problem 1 2 10)\<lparr>stopFittingN := None\<rparr>] None (- 1) =
     (Inl (AttributeError ''stopFittingN'') ::
        error + (int, nat, unit) FittingProblemMultipleCondition)"
  by (simp add: generalSetup_def)

text \<open>
  Claim C5, amended. Setup copies the stopping window of the first single-condition
  problem when that problem has one. The default of 3 belongs to the stopping check of
  \<open>fitAll\<close>: an aggregator without a \<open>stopFittingN\<close> of its own is checked as one with
  \<open>stopFittingN = 3\<close>, and has \<open>stopFittingN = 3\<close> after the check.
\<close>

theorem window_copied_at_setup_default_in_check:
  fixes s :: "('v::ord, 'm, 'p) FittingProblemMultipleCondition"
  shows "(stopFittingN f = Some w \<longrightarrow>
            (\<exists>a. generalSetup p (f # fs) sf sk = Inr a \<and> stopFittingN a = Some w \<and> window a = w)) \<and>
         (stopFittingN s = None \<longrightarrow>
            window s = 3 \<and>
            stoppingCheck s = stoppingCheck (s\<lparr>stopFittingN := Some 3\<rparr>) \<and>
            stopFittingN (flow_state (stoppingCheck s)) = Some 3)"
proof (intro conjI impI)
  assume "stopFittingN f = Some w"
  then show "\<exists>a. generalSetup p (f # fs) sf sk = Inr a \<and> stopFittingN a = Some w \<and> window a = w"
    by (simp add: generalSetup_def window_def)
next
  assume none: "stopFittingN s = None"
  then show w: "window s = 3" by (simp add: window_def)
  have w': "window (s\<lparr>stopFittingN := Some 3\<rparr>) = 3" by (simp add: window_def)
  show "stoppingCheck s = stoppingCheck (s\<lparr>stopFittingN := Some 3\<rparr>)"
    by (simp add: stoppingCheck_def w w' Let_def cong: sum.case_cong)
  from stoppingCheck_state [of s] w
  show "stopFittingN (flow_state (stoppingCheck s)) = Some 3" by auto
qed

theorem window_copied_at_setup_default_in_check_witness:
  "stopFittingN (example_problem 1 2 10) = Some 1 \<and>
   generalSetup 0 [example_problem 1 2 10, example_problem 1 1 20] None (- 1) = Inr example_aggregator \<and>
   window example_aggregator = 1 \<and>
   stopFittingN example_default_window = None \<and>
   window example_default_window = 3 \<and>
   stopFittingN (flow_state (stoppingCheck example_default_window)) = Some 3"
proof -
  have 1: "stopFittingN (example_problem 1 2 10) = Some 1"
    by (simp add: example_problem_def)
  have 2: "stopFittingN example_default_window = None"
    by (simp add: example_default_window_def)
  have 3: "generalSetup 0 [example_problem 1 2 10, example_problem 1 1 20] None (- 1) =
      Inr example_aggregator"
    by (simp add: generalSetup_def example_aggregator_def example_problem_def)
  note inst = window_copied_at_setup_default_in_check
    [of "example_problem 1 2 10" 1 0 "[example_problem 1 1 20]" None "- 1" example_default_window]
  from inst [THEN conjunct1, rule_format, OF 1] 3
  have 4: "window example_aggregator = 1" by auto
  from inst [THEN conjunct2, rule_format, OF 2]
  have 5: "window example_default_window = 3"
    "stopFittingN (flow_state (stoppingCheck example_default_window)) = Some 3"
    by blast+
  from 1 2 3 4 5 show ?thesis by (intro conjI)
qed

end
